theory Spec2Isabelle
  imports Complex_Main
begin

section \<open>Python values\<close>

text \<open>
  The scraper stores three kinds of values in a listing: \<^verbatim>\<open>None\<close>, strings and floats.
  A float is either \<^verbatim>\<open>nan\<close> (what \<^verbatim>\<open>parse_price\<close> and \<^verbatim>\<open>parse_square_feet\<close> return
  on failure) or a number. Numbers are modelled as exact reals: rounding to 64 bits and
  overflow to infinity are outside the model. Strings are modelled over ASCII.
\<close>

datatype error =
  ValueError | ZeroDivisionError | TypeError | KeyError | IndexError
  | WebDriverException | RequestException

datatype pyfloat = NaN | Fin real

datatype pyval = PNone | PStr string | PFloat pyfloat

text \<open>Truth value of an object, as \<^verbatim>\<open>if x\<close>, \<^verbatim>\<open>not x\<close> and \<^verbatim>\<open>x or y\<close> test it:
  \<^verbatim>\<open>None\<close>, the empty string and zero are false, \<^verbatim>\<open>nan\<close> is true.\<close>

fun truthy :: "pyval \<Rightarrow> bool" where
  "truthy PNone = False"
| "truthy (PStr s) = (s \<noteq> [])"
| "truthy (PFloat NaN) = True"
| "truthy (PFloat (Fin r)) = (r \<noteq> 0)"

text \<open>The operator \<^verbatim>\<open>/\<close> on two stored values.\<close>

fun py_truediv :: "pyval \<Rightarrow> pyval \<Rightarrow> error + pyval" where
  "py_truediv (PFloat (Fin a)) (PFloat (Fin b)) =
     (if b = 0 then Inl ZeroDivisionError else Inr (PFloat (Fin (a / b))))"
| "py_truediv (PFloat NaN) (PFloat (Fin b)) =
     (if b = 0 then Inl ZeroDivisionError else Inr (PFloat NaN))"
| "py_truediv (PFloat a) (PFloat NaN) = Inr (PFloat NaN)"
| "py_truediv a b = Inl TypeError"

section \<open>Character classes and string helpers\<close>

definition is_digit :: "char \<Rightarrow> bool" where
  "is_digit c = (c \<in> set ''0123456789'')"

definition is_upper_az :: "char \<Rightarrow> bool" where
  "is_upper_az c = (c \<in> set ''ABCDEFGHIJKLMNOPQRSTUVWXYZ'')"

definition is_lower_az :: "char \<Rightarrow> bool" where
  "is_lower_az c = (c \<in> set ''abcdefghijklmnopqrstuvwxyz'')"

text \<open>\<^verbatim>\<open>\s\<close> and \<^verbatim>\<open>str.strip\<close>: tab, line feed, vertical tab, form feed, carriage return,
  the four separators 0x1C to 0x1F, and the space.\<close>

definition is_space :: "char \<Rightarrow> bool" where
  "is_space c = (c \<in> set [CHR 0x09, CHR 0x0A, CHR 0x0B, CHR 0x0C, CHR 0x0D,
                           CHR 0x1C, CHR 0x1D, CHR 0x1E, CHR 0x1F, CHR '' ''])"

text \<open>\<^verbatim>\<open>\w\<close>: letters, digits and the underscore.\<close>

definition is_word :: "char \<Rightarrow> bool" where
  "is_word c = (is_digit c \<or> is_upper_az c \<or> is_lower_az c \<or> c = CHR ''_'')"

definition strip :: "string \<Rightarrow> string" where
  "strip s = rev (dropWhile is_space (rev (dropWhile is_space s)))"

text \<open>\<^verbatim>\<open>re.sub(r'C+', rep, s)\<close> for a character class \<open>C\<close>: every maximal run of
  characters of the class is replaced by \<open>rep\<close>.\<close>

function sub_runs :: "(char \<Rightarrow> bool) \<Rightarrow> string \<Rightarrow> string \<Rightarrow> string" where
  "sub_runs P rep [] = []"
| "sub_runs P rep (c # cs) =
     (if P c then rep @ sub_runs P rep (dropWhile P cs) else c # sub_runs P rep cs)"
  by pat_completeness auto
termination
  by (relation "measure (\<lambda>(P, rep, s). length s)")
     (auto intro: le_imp_less_Suc length_dropWhile_le)

text \<open>\<^verbatim>\<open>sub in s\<close> and \<^verbatim>\<open>s.startswith(sub)\<close>.\<close>

fun startswith :: "string \<Rightarrow> string \<Rightarrow> bool" where
  "startswith s [] = True"
| "startswith [] (p # ps) = False"
| "startswith (c # cs) (p # ps) = (c = p \<and> startswith cs ps)"

fun contains :: "string \<Rightarrow> string \<Rightarrow> bool" where
  "contains sub [] = (sub = [])"
| "contains sub (c # cs) = (startswith (c # cs) sub \<or> contains sub cs)"

text \<open>\<^verbatim>\<open>s.split(sep)\<close> for a one-character separator: the pieces between the separators,
  never an empty list.\<close>

fun split_acc :: "char \<Rightarrow> string \<Rightarrow> string \<Rightarrow> string list" where
  "split_acc sep cur [] = [rev cur]"
| "split_acc sep cur (c # cs) =
     (if c = sep then rev cur # split_acc sep [] cs else split_acc sep (c # cur) cs)"

definition split :: "char \<Rightarrow> string \<Rightarrow> string list" where
  "split sep s = split_acc sep [] s"

section \<open>Regular expressions of the utilities\<close>

text \<open>
  The two patterns searched for, \<^verbatim>\<open>([\d,]+)\<close> and \<^verbatim>\<open>([^,]+),\s*([A-Z]{2})\<close>, are sequences
  of character classes, each with a quantifier and possibly a capture group around it.
  \<open>match_here\<close> is the backtracking matcher anchored at the start of the text: a
  quantified class first takes the longest run allowed (greedy) and gives characters back
  one at a time while the rest of the pattern fails. \<open>re_search\<close> tries the start
  positions from left to right and returns the groups of the first match.
\<close>

datatype quant = Once | Plus | Star | Exactly nat

datatype atom = Atom "char \<Rightarrow> bool" quant bool

fun quant_lengths :: "quant \<Rightarrow> nat \<Rightarrow> nat list" where
  "quant_lengths Once run = (if 1 \<le> run then [1] else [])"
| "quant_lengths Plus run = rev [1 ..< Suc run]"
| "quant_lengths Star run = rev [0 ..< Suc run]"
| "quant_lengths (Exactly k) run = (if k \<le> run then [k] else [])"

fun first_some :: "'a option list \<Rightarrow> 'a option" where
  "first_some [] = None"
| "first_some (None # xs) = first_some xs"
| "first_some (Some x # xs) = Some x"

fun match_here :: "atom list \<Rightarrow> string \<Rightarrow> string list option" where
  "match_here [] s = Some []"
| "match_here (Atom P q cap # rest) s =
     first_some
       (map (\<lambda>n. case match_here rest (drop n s) of
                    None \<Rightarrow> None
                  | Some gs \<Rightarrow> Some (if cap then take n s # gs else gs))
            (quant_lengths q (length (takeWhile P s))))"

definition re_search :: "atom list \<Rightarrow> string \<Rightarrow> string list option" where
  "re_search pat s = first_some (map (\<lambda>i. match_here pat (drop i s)) [0 ..< Suc (length s)])"

section \<open>utils.py\<close>

text \<open>\<^verbatim>\<open>float(s)\<close> on the texts that reach it here, which hold digits and periods only:
  digits with at most one period and at least one digit, else \<^verbatim>\<open>ValueError\<close>.\<close>

definition digit_val :: "char \<Rightarrow> int" where
  "digit_val c = of_char c - 48"

definition dec :: "string \<Rightarrow> int" where
  "dec s = foldl (\<lambda>n c. 10 * n + digit_val c) 0 s"

definition py_float :: "string \<Rightarrow> error + real" where
  "py_float s =
     (let ip = takeWhile is_digit s; rest = dropWhile is_digit s in
      case rest of
        [] \<Rightarrow> if ip = [] then Inl ValueError else Inr (of_int (dec ip))
      | c # fp \<Rightarrow>
          if c = CHR ''.'' \<and> list_all is_digit fp \<and> (ip \<noteq> [] \<or> fp \<noteq> [])
          then Inr (of_int (dec ip) + of_int (dec fp) / 10 ^ length fp)
          else Inl ValueError)"

text \<open>\<^verbatim>\<open>clean_text\<close>: whitespace runs become one space, characters other than word
  characters, whitespace and \<^verbatim>\<open>.,!?;:()-'"\<close> are removed, runs of spaces become one
  space, and the ends are stripped.\<close>

definition clean_keep :: "char \<Rightarrow> bool" where
  "clean_keep c = (is_word c \<or> is_space c \<or> c \<in> set (''.,!?;:()-'' @ [CHR 0x27, CHR 0x22]))"

definition clean_text :: "string option \<Rightarrow> string" where
  "clean_text text =
     (case text of
        None \<Rightarrow> []
      | Some t \<Rightarrow>
          strip (sub_runs (\<lambda>c. c = CHR '' '') '' ''
                   (filter clean_keep (sub_runs is_space '' '' t))))"

text \<open>\<^verbatim>\<open>parse_price\<close>: everything but digits, periods and commas is removed, then the
  commas, and the rest goes to \<^verbatim>\<open>float\<close>; \<^verbatim>\<open>ValueError\<close> is caught and gives \<^verbatim>\<open>nan\<close>.\<close>

definition parse_price :: "string option \<Rightarrow> error + pyfloat" where
  "parse_price price_str =
     (case price_str of
        None \<Rightarrow> Inr NaN
      | Some s \<Rightarrow>
          (let s1 = filter (\<lambda>c. is_digit c \<or> c = CHR ''.'' \<or> c = CHR '','') s;
               s2 = filter (\<lambda>c. c \<noteq> CHR '','') s1
           in case py_float s2 of
                Inr r \<Rightarrow> Inr (Fin r)
              | Inl e \<Rightarrow> if e = ValueError then Inr NaN else Inl e))"

text \<open>\<^verbatim>\<open>parse_square_feet\<close>: the first run of digits and commas is searched for, its commas
  are removed and the rest goes to \<^verbatim>\<open>float\<close>; no run, or \<^verbatim>\<open>ValueError\<close>, gives \<^verbatim>\<open>nan\<close>.\<close>

definition sqft_pattern :: "atom list" where
  "sqft_pattern = [Atom (\<lambda>c. is_digit c \<or> c = CHR '','') Plus True]"

definition parse_square_feet :: "string option \<Rightarrow> error + pyfloat" where
  "parse_square_feet sqft_str =
     (case sqft_str of
        None \<Rightarrow> Inr NaN
      | Some s \<Rightarrow>
          (case re_search sqft_pattern s of
             Some (g # gs) \<Rightarrow>
               (let num_str = filter (\<lambda>c. c \<noteq> CHR '','') g
                in case py_float num_str of
                     Inr r \<Rightarrow> Inr (Fin r)
                   | Inl e \<Rightarrow> if e = ValueError then Inr NaN else Inl e)
           | _ \<Rightarrow> Inr NaN))"

text \<open>\<^verbatim>\<open>extract_city_state\<close>: the stripped text is searched for
  \<^verbatim>\<open>([^,]+),\s*([A-Z]{2})\<close>; the two groups, stripped, are the city and the state.\<close>

definition city_state_pattern :: "atom list" where
  "city_state_pattern =
     [Atom (\<lambda>c. c \<noteq> CHR '','') Plus True,
      Atom (\<lambda>c. c = CHR '','') Once False,
      Atom is_space Star False,
      Atom is_upper_az (Exactly 2) True]"

definition extract_city_state :: "string option \<Rightarrow> pyval \<times> pyval" where
  "extract_city_state location =
     (case location of
        None \<Rightarrow> (PNone, PNone)
      | Some l \<Rightarrow>
          (case re_search city_state_pattern (strip l) of
             Some [city, state] \<Rightarrow> (PStr (strip city), PStr (strip state))
           | _ \<Rightarrow> (PNone, PNone)))"

section \<open>A listing and the statements that fill it\<close>

text \<open>
  \<^verbatim>\<open>property_data\<close> is a dictionary from field names to values. A statement on it either
  completes or raises, and leaves the dictionary as it was at that moment: \<open>step\<close>.
  \<open>expr\<close> is an expression read against the dictionary.
\<close>

type_synonym pdict = "string \<rightharpoonup> pyval"

type_synonym step = "pdict \<Rightarrow> error option \<times> pdict"

type_synonym expr = "pdict \<Rightarrow> error + pyval"

definition skip :: step where
  "skip pd = (None, pd)"

definition seq :: "step \<Rightarrow> step \<Rightarrow> step" where
  "seq f g pd = (case f pd of (Some e, pd1) \<Rightarrow> (Some e, pd1) | (None, pd1) \<Rightarrow> g pd1)"

text \<open>\<^verbatim>\<open>try: ... except: pass\<close>\<close>

definition guarded :: "step \<Rightarrow> step" where
  "guarded f pd = (None, snd (f pd))"

text \<open>\<^verbatim>\<open>property_data[k]\<close>, \<^verbatim>\<open>property_data.get(k)\<close> and \<^verbatim>\<open>property_data[k] = e\<close>\<close>

definition item :: "string \<Rightarrow> expr" where
  "item k pd = (case pd k of None \<Rightarrow> Inl KeyError | Some v \<Rightarrow> Inr v)"

definition dict_get :: "pdict \<Rightarrow> string \<Rightarrow> pyval" where
  "dict_get pd k = (case pd k of None \<Rightarrow> PNone | Some v \<Rightarrow> v)"

definition assign :: "string \<Rightarrow> expr \<Rightarrow> step" where
  "assign k e pd = (case e pd of Inl err \<Rightarrow> (Some err, pd) | Inr v \<Rightarrow> (None, pd(k \<mapsto> v)))"

definition lit :: "pyval \<Rightarrow> expr" where
  "lit v pd = Inr v"

definition lit_float :: "error + pyfloat \<Rightarrow> expr" where
  "lit_float r pd = (case r of Inl e \<Rightarrow> Inl e | Inr x \<Rightarrow> Inr (PFloat x))"

definition truediv :: "expr \<Rightarrow> expr \<Rightarrow> expr" where
  "truediv a b pd =
     (case a pd of Inl e \<Rightarrow> Inl e
      | Inr x \<Rightarrow> (case b pd of Inl e \<Rightarrow> Inl e | Inr y \<Rightarrow> py_truediv x y))"

text \<open>\<^verbatim>\<open>if a and b: body\<close> (the second operand is read only when the first is true) and
  \<^verbatim>\<open>if not a: body\<close>\<close>

definition if_and :: "expr \<Rightarrow> expr \<Rightarrow> step \<Rightarrow> step" where
  "if_and a b body pd =
     (case a pd of Inl e \<Rightarrow> (Some e, pd)
      | Inr x \<Rightarrow>
          if truthy x
          then (case b pd of Inl e \<Rightarrow> (Some e, pd)
                | Inr y \<Rightarrow> if truthy y then body pd else (None, pd))
          else (None, pd))"

definition if_not :: "expr \<Rightarrow> step \<Rightarrow> step" where
  "if_not a body pd =
     (case a pd of Inl e \<Rightarrow> (Some e, pd)
      | Inr x \<Rightarrow> if truthy x then (None, pd) else body pd)"

text \<open>A statement that runs on the text of an element when the element is there.\<close>

definition on_text :: "(string \<Rightarrow> step) \<Rightarrow> string option \<Rightarrow> step" where
  "on_text f el = (case el of None \<Rightarrow> skip | Some t \<Rightarrow> f t)"

definition property_keys :: "string list" where
  "property_keys =
     [''source'', ''url'', ''property_id'', ''title'', ''description'', ''price'',
      ''price_per_sqft'', ''square_feet'', ''property_type'', ''city'', ''state'',
      ''address'', ''year_built'', ''parking_spaces'', ''listing_date'']"

definition new_property_data :: "string \<Rightarrow> pdict" where
  "new_property_data url =
     [''source'' \<mapsto> PStr ''LoopNet'',
      ''url'' \<mapsto> PStr url,
      ''property_id'' \<mapsto> PNone,
      ''title'' \<mapsto> PNone,
      ''description'' \<mapsto> PNone,
      ''price'' \<mapsto> PNone,
      ''price_per_sqft'' \<mapsto> PNone,
      ''square_feet'' \<mapsto> PNone,
      ''property_type'' \<mapsto> PNone,
      ''city'' \<mapsto> PNone,
      ''state'' \<mapsto> PNone,
      ''address'' \<mapsto> PNone,
      ''year_built'' \<mapsto> PNone,
      ''parking_spaces'' \<mapsto> PNone,
      ''listing_date'' \<mapsto> PNone]"

text \<open>The five field blocks of \<^verbatim>\<open>scrape_property\<close>, each on the text of its element.\<close>

definition title_step :: "string \<Rightarrow> step" where
  "title_step t = assign ''title'' (lit (PStr (clean_text (Some t))))"

definition description_step :: "string \<Rightarrow> step" where
  "description_step t = assign ''description'' (lit (PStr (clean_text (Some t))))"

definition price_step :: "string \<Rightarrow> step" where
  "price_step t = assign ''price'' (lit_float (parse_price (Some t)))"

definition sqft_step :: "string \<Rightarrow> step" where
  "sqft_step t =
     seq (assign ''square_feet'' (lit_float (parse_square_feet (Some t))))
         (if_and (item ''price'') (item ''square_feet'')
            (assign ''price_per_sqft'' (truediv (item ''price'') (item ''square_feet''))))"

definition location_step :: "string \<Rightarrow> step" where
  "location_step t =
     seq (assign ''address'' (lit (PStr (clean_text (Some t)))))
         (seq (assign ''city'' (lit (fst (extract_city_state (Some t)))))
              (assign ''state'' (lit (snd (extract_city_state (Some t))))))"

text \<open>What a detail page gives: the text of the first element matching each selector
  (\<open>None\<close> when there is none, or when reading it raises), and the \<^verbatim>\<open>property\<close> and
  \<^verbatim>\<open>content\<close> attributes of its \<^verbatim>\<open>meta\<close> tags, \<^verbatim>\<open>''\<close> for a missing attribute. With the
  browser the tags are read from \<^verbatim>\<open>page_source\<close>, which may raise.\<close>

record page_fields =
  title_el :: "string option"
  description_el :: "string option"
  price_el :: "string option"
  sqft_el :: "string option"
  location_el :: "string option"

record static_page = page_fields +
  meta_tags :: "(string \<times> string) list"

record selenium_page = page_fields +
  page_source :: "(string \<times> string) list option"

text \<open>With the browser every block is in its own \<^verbatim>\<open>try: ... except: pass\<close>; with
  \<^verbatim>\<open>requests\<close> the blocks follow each other under \<^verbatim>\<open>if elem:\<close>.\<close>

definition selenium_fields :: "('a page_fields_scheme) \<Rightarrow> step" where
  "selenium_fields pg =
     seq (guarded (on_text title_step (title_el pg)))
    (seq (guarded (on_text description_step (description_el pg)))
    (seq (guarded (on_text price_step (price_el pg)))
    (seq (guarded (on_text sqft_step (sqft_el pg)))
         (guarded (on_text location_step (location_el pg))))))"

definition static_fields :: "('a page_fields_scheme) \<Rightarrow> step" where
  "static_fields pg =
     seq (on_text title_step (title_el pg))
    (seq (on_text description_step (description_el pg))
    (seq (on_text price_step (price_el pg))
    (seq (on_text sqft_step (sqft_el pg))
         (on_text location_step (location_el pg)))))"

text \<open>The loop over the \<^verbatim>\<open>meta\<close> tags.\<close>

definition meta_step :: "string \<times> string \<Rightarrow> step" where
  "meta_step m =
     (case m of (prop, content) \<Rightarrow>
        if contains ''og:title'' prop
        then if_not (item ''title'') (assign ''title'' (lit (PStr (clean_text (Some content)))))
        else if contains ''og:description'' prop
        then if_not (item ''description'')
               (assign ''description'' (lit (PStr (clean_text (Some content)))))
        else skip)"

fun meta_pass :: "(string \<times> string) list \<Rightarrow> step" where
  "meta_pass [] = skip"
| "meta_pass (m # ms) = seq (meta_step m) (meta_pass ms)"

text \<open>The listing's id: the piece of the URL after the first piece \<^verbatim>\<open>property\<close> or
  \<^verbatim>\<open>listing\<close> that has a successor.\<close>

fun find_id :: "string list \<Rightarrow> step" where
  "find_id [] = skip"
| "find_id [part] = skip"
| "find_id (part # nxt # rest) =
     (if part = ''property'' \<or> part = ''listing''
      then (case split CHR ''/'' nxt of
              [] \<Rightarrow> (\<lambda>pd. (Some IndexError, pd))
            | x # xs \<Rightarrow> assign ''property_id'' (lit (PStr x)))
      else find_id (nxt # rest))"

definition id_step :: "string \<Rightarrow> step" where
  "id_step url =
     (if contains ''/property/'' url \<or> contains ''/listing/'' url
      then find_id (split CHR ''/'' url) else skip)"

section \<open>The scraper and the world it talks to\<close>

text \<open>
  The scraper object: whether \<^verbatim>\<open>self.driver\<close> holds a browser, and \<^verbatim>\<open>self.properties\<close>.
  Three counters are kept beside them to observe the run: \<open>clock\<close> counts the calls
  made to the outside, \<open>started\<close> the browsers created and \<open>quits\<close> the calls of
  \<^verbatim>\<open>driver.quit()\<close>.
\<close>

record scraper =
  driver :: bool
  properties :: "pdict list"
  clock :: nat
  started :: nat
  quits :: nat

record config =
  use_selenium :: bool
  base_url :: string

text \<open>
  Everything the outside decides, as a function of the moment (\<open>clock\<close>) and the URL:
  \<^item> how creating the browser goes: it works, \<^verbatim>\<open>webdriver.Chrome\<close> (or the driver
    manager) raises, or the browser is created and the \<^verbatim>\<open>execute_script\<close> that follows
    raises;
  \<^item> a search page read with the browser: the \<^verbatim>\<open>href\<close> of each matching element, or
    \<open>None\<close> when a call inside the \<^verbatim>\<open>try\<close> raises;
  \<^item> a search page read with \<^verbatim>\<open>requests\<close>: the \<^verbatim>\<open>href\<close> of every anchor that has one, or
    \<open>None\<close> when the request raises;
  \<^item> a detail page, or \<open>None\<close> when loading it raises;
  \<^item> the order in which \<^verbatim>\<open>list(set(links))\<close> lists the links.
\<close>

datatype init_outcome = InitOk | ChromeFails | ScriptFails

record world =
  chrome_start :: "nat \<Rightarrow> init_outcome"
  search_selenium :: "nat \<Rightarrow> string \<Rightarrow> string option list option"
  search_static :: "nat \<Rightarrow> string \<Rightarrow> string list option"
  detail_selenium :: "nat \<Rightarrow> string \<Rightarrow> selenium_page option"
  detail_static :: "nat \<Rightarrow> string \<Rightarrow> static_page option"
  set_order :: "string list \<Rightarrow> string list"

definition tick :: "scraper \<Rightarrow> scraper" where
  "tick st = st\<lparr>clock := Suc (clock st)\<rparr>"

definition new_scraper :: scraper where
  "new_scraper = \<lparr>driver = False, properties = [], clock = 0, started = 0, quits = 0\<rparr>"

definition init_driver :: "world \<Rightarrow> scraper \<Rightarrow> error option \<times> scraper" where
  "init_driver w st =
     (if \<not> driver st
      then (case chrome_start w (clock st) of
              ChromeFails \<Rightarrow> (Some WebDriverException, tick st)
            | ScriptFails \<Rightarrow>
                (Some WebDriverException, tick (st\<lparr>driver := True, started := Suc (started st)\<rparr>))
            | InitOk \<Rightarrow> (None, tick (st\<lparr>driver := True, started := Suc (started st)\<rparr>)))
      else (None, st))"

definition close_driver :: "scraper \<Rightarrow> scraper" where
  "close_driver st =
     (if driver st then st\<lparr>driver := False, quits := Suc (quits st)\<rparr> else st)"

section \<open>Search pages\<close>

fun collect_hrefs :: "string option list \<Rightarrow> string list \<Rightarrow> string list" where
  "collect_hrefs [] property_links = property_links"
| "collect_hrefs (href # elements) property_links =
     (case href of
        None \<Rightarrow> collect_hrefs elements property_links
      | Some h \<Rightarrow>
          if h \<noteq> [] \<and> h \<notin> set property_links
          then collect_hrefs elements (property_links @ [h])
          else collect_hrefs elements property_links)"

fun collect_anchors :: "string \<Rightarrow> string list \<Rightarrow> string list \<Rightarrow> string list" where
  "collect_anchors base [] property_links = property_links"
| "collect_anchors base (href # anchors) property_links =
     (if contains ''/property/'' href \<or> contains ''/listing/'' href
      then (let full_url = (if startswith href ''http'' then href else base @ href)
            in if full_url \<notin> set property_links
               then collect_anchors base anchors (property_links @ [full_url])
               else collect_anchors base anchors property_links)
      else collect_anchors base anchors property_links)"

text \<open>With the browser, \<^verbatim>\<open>_init_driver\<close> is called before the \<^verbatim>\<open>try\<close>: what it raises
  leaves the function. Everything after it is inside the \<^verbatim>\<open>try\<close> and gives \<^verbatim>\<open>[]\<close>.\<close>

definition scrape_search_page ::
  "config \<Rightarrow> world \<Rightarrow> string \<Rightarrow> scraper \<Rightarrow> (error + string list) \<times> scraper" where
  "scrape_search_page cfg w url st =
     (if use_selenium cfg
      then (case init_driver w st of
              (Some e, st1) \<Rightarrow> (Inl e, st1)
            | (None, st1) \<Rightarrow>
                (case search_selenium w (clock st1) url of
                   None \<Rightarrow> (Inr [], tick st1)
                 | Some elements \<Rightarrow> (Inr (collect_hrefs elements []), tick st1)))
      else (case search_static w (clock st) url of
              None \<Rightarrow> (Inr [], tick st)
            | Some anchors \<Rightarrow> (Inr (collect_anchors (base_url cfg) anchors []), tick st)))"

section \<open>Detail pages\<close>

text \<open>The body of the outer \<^verbatim>\<open>try\<close>: what was raised, if anything, and the dictionary
  at that moment.\<close>

definition scrape_property_try ::
  "config \<Rightarrow> world \<Rightarrow> string \<Rightarrow> scraper \<Rightarrow> (error option \<times> pdict) \<times> scraper" where
  "scrape_property_try cfg w url st =
     (let property_data = new_property_data url in
      if use_selenium cfg
      then (case init_driver w st of
              (Some e, st1) \<Rightarrow> ((Some e, property_data), st1)
            | (None, st1) \<Rightarrow>
                (case detail_selenium w (clock st1) url of
                   None \<Rightarrow> ((Some WebDriverException, property_data), tick st1)
                 | Some pg \<Rightarrow>
                     (case selenium_fields pg property_data of
                        (Some e, pd1) \<Rightarrow> ((Some e, pd1), tick st1)
                      | (None, pd1) \<Rightarrow>
                          (case page_source pg of
                             None \<Rightarrow> ((Some WebDriverException, pd1), tick st1)
                           | Some metas \<Rightarrow>
                               (seq (meta_pass metas) (id_step url) pd1, tick st1)))))
      else (case detail_static w (clock st) url of
              None \<Rightarrow> ((Some RequestException, property_data), tick st)
            | Some pg \<Rightarrow>
                (seq (static_fields pg) (seq (meta_pass (meta_tags pg)) (id_step url))
                   property_data,
                 tick st)))"

text \<open>\<^verbatim>\<open>except Exception\<close> logs what was raised; \<^verbatim>\<open>return property_data\<close> follows on
  both paths.\<close>

definition scrape_property ::
  "config \<Rightarrow> world \<Rightarrow> string \<Rightarrow> scraper \<Rightarrow> (error + pdict) \<times> scraper" where
  "scrape_property cfg w url st =
     (case scrape_property_try cfg w url st of
        ((None, property_data), st1) \<Rightarrow> (Inr property_data, st1)
      | ((Some e, property_data), st1) \<Rightarrow> (Inr property_data, st1))"

section \<open>The crawl\<close>

text \<open>\<^verbatim>\<open>xs[:n]\<close>: a negative \<open>n\<close> counts from the end.\<close>

definition slice_to :: "int \<Rightarrow> 'a list \<Rightarrow> 'a list" where
  "slice_to n xs =
     (if 0 \<le> n then take (nat n) xs else take (length xs - nat (- n)) xs)"

text \<open>The first loop: the links of the search pages, one page after the other, until
  there are \<open>max_properties\<close> of them.\<close>

fun collect_links ::
  "config \<Rightarrow> world \<Rightarrow> int \<Rightarrow> string list \<Rightarrow> string list \<Rightarrow> scraper
     \<Rightarrow> (error + string list) \<times> scraper" where
  "collect_links cfg w max_properties [] all_property_links st = (Inr all_property_links, st)"
| "collect_links cfg w max_properties (search_url # search_urls) all_property_links st =
     (case scrape_search_page cfg w search_url st of
        (Inl e, st1) \<Rightarrow> (Inl e, st1)
      | (Inr links, st1) \<Rightarrow>
          if max_properties \<le> int (length (all_property_links @ links))
          then (Inr (all_property_links @ links), st1)
          else collect_links cfg w max_properties search_urls (all_property_links @ links) st1)"

text \<open>The discovery phase: the first loop, then
  \<^verbatim>\<open>list(set(all_property_links))[:max_properties]\<close>.\<close>

definition discover_links ::
  "config \<Rightarrow> world \<Rightarrow> int \<Rightarrow> string list \<Rightarrow> scraper \<Rightarrow> (error + string list) \<times> scraper" where
  "discover_links cfg w max_properties search_urls st =
     (case collect_links cfg w max_properties search_urls [] st of
        (Inl e, st1) \<Rightarrow> (Inl e, st1)
      | (Inr all_property_links, st1) \<Rightarrow>
          (Inr (slice_to max_properties (set_order w all_property_links)), st1))"

text \<open>The body of the second loop after the test of the cap, and the loop.\<close>

definition extract_one ::
  "config \<Rightarrow> world \<Rightarrow> string \<Rightarrow> scraper \<Rightarrow> error option \<times> scraper" where
  "extract_one cfg w link st =
     (case scrape_property cfg w link st of
        (Inl e, st1) \<Rightarrow> (Some e, st1)
      | (Inr property_data, st1) \<Rightarrow>
          if truthy (dict_get property_data ''title'')
             \<or> truthy (dict_get property_data ''description'')
          then (None, st1\<lparr>properties := properties st1 @ [property_data]\<rparr>)
          else (None, st1))"

fun extract_all ::
  "config \<Rightarrow> world \<Rightarrow> int \<Rightarrow> string list \<Rightarrow> scraper \<Rightarrow> error option \<times> scraper" where
  "extract_all cfg w max_properties [] st = (None, st)"
| "extract_all cfg w max_properties (link # links) st =
     (if max_properties \<le> int (length (properties st))
      then (None, st)
      else (case extract_one cfg w link st of
              (Some e, st1) \<Rightarrow> (Some e, st1)
            | (None, st1) \<Rightarrow> extract_all cfg w max_properties links st1))"

text \<open>The whole crawl. The table returned is modelled by the list of its rows.\<close>

definition scrape_multiple_pages ::
  "config \<Rightarrow> world \<Rightarrow> string list \<Rightarrow> int \<Rightarrow> scraper \<Rightarrow> (error + pdict list) \<times> scraper" where
  "scrape_multiple_pages cfg w search_urls max_properties st =
     (case discover_links cfg w max_properties search_urls st of
        (Inl e, st1) \<Rightarrow> (Inl e, st1)
      | (Inr all_property_links, st1) \<Rightarrow>
          (case extract_all cfg w max_properties all_property_links st1 of
             (Some e, st2) \<Rightarrow> (Inl e, st2)
           | (None, st2) \<Rightarrow>
               (let st3 = close_driver st2 in (Inr (properties st3), st3))))"

section \<open>The coercion as the specification words it\<close>

text \<open>
  The specification's numeric coercion, word for word: strip every character that is not
  a digit, comma, or period; drop the commas; parse the remaining token as a number; on
  failure yield null. It is compared with \<open>parse_price\<close> and \<open>parse_square_feet\<close> below.
\<close>

definition spec_coerce :: "string \<Rightarrow> pyfloat" where
  "spec_coerce s =
     (let kept = filter (\<lambda>c. is_digit c \<or> c = CHR '','' \<or> c = CHR ''.'') s;
          token = filter (\<lambda>c. c \<noteq> CHR '','') kept
      in case py_float token of Inr r \<Rightarrow> Fin r | Inl e \<Rightarrow> NaN)"

text \<open>The first maximal run of characters of a class in a text, if there is one.\<close>

definition first_run :: "(char \<Rightarrow> bool) \<Rightarrow> string \<Rightarrow> string option" where
  "first_run P s =
     (case dropWhile (\<lambda>c. \<not> P c) s of [] \<Rightarrow> None | c # cs \<Rightarrow> Some (takeWhile P (c # cs)))"

section \<open>Notions used in the properties\<close>

text \<open>The relation between the scraper at two moments of a crawl before the driver is
  closed.\<close>

definition session_kept :: "scraper \<Rightarrow> scraper \<Rightarrow> bool" where
  "session_kept st st1 =
     (quits st1 = quits st
      \<and> (if driver st then driver st1 \<and> started st1 = started st
         else if driver st1 then started st1 = Suc (started st)
         else started st1 = started st))"

text \<open>What \<^verbatim>\<open>list(set(xs))\<close> guarantees of the order it lists the elements in.\<close>

definition lists_set :: "(string list \<Rightarrow> string list) \<Rightarrow> bool" where
  "lists_set f = (\<forall>xs. distinct (f xs) \<and> set (f xs) = set xs)"

text \<open>Concrete configurations and worlds, for the examples.\<close>

definition selenium_config :: config where
  "selenium_config = \<lparr>use_selenium = True, base_url = ''https://www.loopnet.com''\<rparr>"

definition static_config :: config where
  "static_config = \<lparr>use_selenium = False, base_url = ''https://www.loopnet.com''\<rparr>"

definition empty_world :: world where
  "empty_world =
     \<lparr>chrome_start = (\<lambda>t. InitOk),
      search_selenium = (\<lambda>t url. None),
      search_static = (\<lambda>t url. None),
      detail_selenium = (\<lambda>t url. None),
      detail_static = (\<lambda>t url. None),
      set_order = remdups\<rparr>"

definition chrome_fails_world :: world where
  "chrome_fails_world = empty_world\<lparr>chrome_start := (\<lambda>t. ChromeFails)\<rparr>"

definition script_fails_world :: world where
  "script_fails_world = empty_world\<lparr>chrome_start := (\<lambda>t. ScriptFails)\<rparr>"

definition titled_page :: selenium_page where
  "titled_page =
     \<lparr>title_el = Some ''Office'', description_el = None, price_el = None, sqft_el = None,
      location_el = None, page_source = Some []\<rparr>"

definition two_seed_world :: world where
  "two_seed_world =
     empty_world
       \<lparr>search_selenium :=
          (\<lambda>t url. if url = ''A'' then Some [Some ''L1'', Some ''L2'', Some ''L3'']
                    else if url = ''B'' then Some [Some ''L2'', Some ''L4'']
                    else None),
        detail_selenium := (\<lambda>t url. Some titled_page)\<rparr>"


text \<open>A scraper that has crawled before and holds three records.\<close>

definition reused_scraper :: scraper where
  "reused_scraper =
     new_scraper\<lparr>properties := [new_property_data ''P1'', new_property_data ''P2'',
                                 new_property_data ''P3'']\<rparr>"

text \<open>A statement started where \<open>P\<close> holds leaves the dictionary where \<open>Q\<close> holds,
  whether it completes or raises; a statement writes only the keys of \<open>K\<close>.\<close>

definition leads :: "(pdict \<Rightarrow> bool) \<Rightarrow> step \<Rightarrow> (pdict \<Rightarrow> bool) \<Rightarrow> bool" where
  "leads P f Q = (\<forall>pd. P pd \<longrightarrow> Q (snd (f pd)))"

definition writes_only :: "string set \<Rightarrow> step \<Rightarrow> bool" where
  "writes_only K f = (\<forall>pd k. k \<notin> K \<longrightarrow> snd (f pd) k = pd k)"

definition element_keys :: "string set" where
  "element_keys = {''title'', ''description'', ''price'', ''square_feet'', ''price_per_sqft'',
                   ''address'', ''city'', ''state''}"

text \<open>The shapes of the stored price and area, and the relation between price, area and
  their ratio: before the area is read, and from then on.\<close>

definition is_price :: "pyval \<Rightarrow> bool" where
  "is_price v = (case v of PNone \<Rightarrow> True | PFloat f \<Rightarrow> True | PStr s \<Rightarrow> False)"

definition is_area :: "pyval \<Rightarrow> bool" where
  "is_area v =
     (case v of PNone \<Rightarrow> True | PFloat NaN \<Rightarrow> True | PFloat (Fin y) \<Rightarrow> 0 \<le> y
      | PStr s \<Rightarrow> False)"

definition before_sqft :: "pdict \<Rightarrow> bool" where
  "before_sqft pd =
     (case pd ''price'' of None \<Rightarrow> False
      | Some p \<Rightarrow> is_price p \<and> pd ''square_feet'' = Some PNone
                  \<and> pd ''price_per_sqft'' = Some PNone)"

definition price_rule :: "pdict \<Rightarrow> bool" where
  "price_rule pd =
     (case (pd ''price'', pd ''square_feet'', pd ''price_per_sqft'') of
        (Some p, Some a, Some q) \<Rightarrow>
          is_price p \<and> is_area a
          \<and> (if truthy p \<and> truthy a then py_truediv p a = Inr q else q = PNone)
      | _ \<Rightarrow> False)"


text \<open>Title and description hold \<^verbatim>\<open>None\<close> or a text; the dictionary has the keys it was
  created with.\<close>

definition text_or_none :: "pyval option \<Rightarrow> bool" where
  "text_or_none v =
     (case v of Some PNone \<Rightarrow> True | Some (PStr s) \<Rightarrow> True | Some (PFloat f) \<Rightarrow> False
      | None \<Rightarrow> False)"

definition text_fields :: "pdict \<Rightarrow> bool" where
  "text_fields pd = (text_or_none (pd ''title'') \<and> text_or_none (pd ''description''))"

definition has_keys :: "pdict \<Rightarrow> bool" where
  "has_keys pd = (dom pd = set property_keys)"

text \<open>A page on which no element is found; a fetch that fails (the session cannot be
  initialized or the page cannot be loaded); a fetch that gives a page without
  elements.\<close>

definition no_elements :: "'a page_fields_scheme \<Rightarrow> bool" where
  "no_elements pg =
     (title_el pg = None \<and> description_el pg = None \<and> price_el pg = None
      \<and> sqft_el pg = None \<and> location_el pg = None)"

definition fetch_fails :: "config \<Rightarrow> world \<Rightarrow> string \<Rightarrow> scraper \<Rightarrow> bool" where
  "fetch_fails cfg w url st =
     (if use_selenium cfg
      then (case init_driver w st of
              (Some e, st1) \<Rightarrow> True
            | (None, st1) \<Rightarrow> detail_selenium w (clock st1) url = None)
      else detail_static w (clock st) url = None)"

definition fetch_bare :: "config \<Rightarrow> world \<Rightarrow> string \<Rightarrow> scraper \<Rightarrow> bool" where
  "fetch_bare cfg w url st =
     (if use_selenium cfg
      then (case init_driver w st of
              (Some e, st1) \<Rightarrow> False
            | (None, st1) \<Rightarrow>
                (case detail_selenium w (clock st1) url of
                   None \<Rightarrow> False | Some pg \<Rightarrow> no_elements pg))
      else (case detail_static w (clock st) url of
              None \<Rightarrow> False | Some pg \<Rightarrow> no_elements pg))"


text \<open>Detail pages for the examples, read with \<^verbatim>\<open>requests\<close>.\<close>

definition listing_page :: "string option \<Rightarrow> string option \<Rightarrow> string option
    \<Rightarrow> (string \<times> string) list \<Rightarrow> static_page" where
  "listing_page title price sqft metas =
     \<lparr>title_el = title, description_el = None, price_el = price, sqft_el = sqft,
      location_el = None, meta_tags = metas\<rparr>"

definition static_world :: "static_page \<Rightarrow> world" where
  "static_world pg = empty_world\<lparr>detail_static := (\<lambda>t url. Some pg)\<rparr>"

definition free_listing :: static_page where
  "free_listing = listing_page (Some ''Office'') (Some ''$0'') (Some ''100 SF'') []"

definition priced_listing :: static_page where
  "priced_listing = listing_page (Some ''Office'') (Some ''$1,000'') (Some ''500 SF'') []"

definition blank_title_listing :: static_page where
  "blank_title_listing = listing_page (Some '' '') None None []"

definition blank_title_with_meta :: static_page where
  "blank_title_with_meta = listing_page (Some '' '') None None [(''og:title'', ''Tower'')]"

definition titled_with_meta :: static_page where
  "titled_with_meta = listing_page (Some ''Office'') None None [(''og:title'', ''Tower'')]"

definition bare_listing :: static_page where
  "bare_listing = listing_page None None None []"

section \<open>Properties of the utilities\<close>

lemma py_float_error: "py_float s = Inl e \<Longrightarrow> e = ValueError"
  by (auto simp: py_float_def Let_def split: list.splits if_splits)

lemma re_search_Nil: "re_search pat [] = match_here pat []"
  by (cases "match_here pat []") (simp_all add: re_search_def)

lemma re_search_Cons:
  "re_search pat (c # cs) =
     (case match_here pat (c # cs) of Some gs \<Rightarrow> Some gs | None \<Rightarrow> re_search pat cs)"
proof -
  have upt: "[0 ..< Suc (Suc (length cs))] = 0 # map Suc [0 ..< Suc (length cs)]"
    unfolding map_Suc_upt by (rule upt_conv_Cons) simp
  have "re_search pat (c # cs) =
          first_some (map (\<lambda>i. match_here pat (drop i (c # cs)))
                        (0 # map Suc [0 ..< Suc (length cs)]))"
    unfolding re_search_def by (simp only: upt length_Cons)
  also have "\<dots> = first_some (match_here pat (c # cs)
                        # map (\<lambda>i. match_here pat (drop i cs)) [0 ..< Suc (length cs)])"
    by (simp add: comp_def del: upt_Suc)
  finally show ?thesis
    by (cases "match_here pat (c # cs)") (simp_all add: re_search_def del: upt_Suc)
qed

lemma first_some_rev_upt:
  "first_some (map (\<lambda>n. Some (f n)) (rev [1 ..< Suc k])) = (if k = 0 then None else Some (f k))"
  by (cases k) simp_all

text \<open>A single class under \<^verbatim>\<open>+\<close> matches, at a position, the whole run that starts there.\<close>

lemma match_here_plus:
  "match_here [Atom P Plus True] s =
     (if takeWhile P s = [] then None else Some [takeWhile P s])"
proof -
  have "match_here [Atom P Plus True] s =
          first_some (map (\<lambda>n. Some [take n s]) (rev [1 ..< Suc (length (takeWhile P s))]))"
    by simp
  also have "\<dots> = (if length (takeWhile P s) = 0 then None
                   else Some [take (length (takeWhile P s)) s])"
    by (rule first_some_rev_upt)
  finally show ?thesis
    by (simp add: takeWhile_eq_take [symmetric])
qed

text \<open>Searching for it finds the first run in the text.\<close>

lemma re_search_plus: "re_search [Atom P Plus True] s = map_option (\<lambda>g. [g]) (first_run P s)"
proof (induction s)
  case Nil
  show ?case
    by (simp add: re_search_Nil first_run_def match_here_plus del: match_here.simps)
next
  case (Cons c cs)
  show ?case
  proof (cases "P c")
    case True
    then show ?thesis
      by (simp add: re_search_Cons match_here_plus first_run_def del: match_here.simps)
  next
    case False
    then show ?thesis
      using Cons.IH
      by (simp add: re_search_Cons match_here_plus first_run_def del: match_here.simps)
  qed
qed

lemma kept_chars:
  "(\<lambda>c. is_digit c \<or> c = CHR '','' \<or> c = CHR ''.'')
     = (\<lambda>c. is_digit c \<or> c = CHR ''.'' \<or> c = CHR '','')"
  by auto

lemma parse_price_spec: "parse_price (Some s) = Inr (spec_coerce s)"
  by (auto simp: parse_price_def spec_coerce_def Let_def kept_chars
           split: sum.splits dest: py_float_error)

lemma parse_square_feet_run:
  "parse_square_feet (Some s) =
     Inr (case first_run (\<lambda>c. is_digit c \<or> c = CHR '','') s of
            None \<Rightarrow> NaN | Some g \<Rightarrow> spec_coerce g)"
proof (cases "first_run (\<lambda>c. is_digit c \<or> c = CHR '','') s")
  case None
  then show ?thesis
    by (simp add: parse_square_feet_def sqft_pattern_def re_search_plus)
next
  case (Some g)
  then have "\<forall>c \<in> set g. is_digit c \<or> c = CHR '',''"
    by (auto simp: first_run_def split: list.splits dest: set_takeWhileD)
  then have "filter (\<lambda>c. is_digit c \<or> c = CHR '','' \<or> c = CHR ''.'') g = g"
    by (auto simp: filter_id_conv)
  with Some show ?thesis
    by (auto simp: parse_square_feet_def sqft_pattern_def re_search_plus spec_coerce_def Let_def
             split: sum.splits dest: py_float_error)
qed

subsection \<open>City and state\<close>

text \<open>On \<^verbatim>\<open>"Downtown Plaza, New York, NY"\<close> the city is not everything before the last
  comma: the first group \<^verbatim>\<open>[^,]+\<close> cannot hold a comma.\<close>

theorem extract_city_state_not_whole_prefix:
  "extract_city_state (Some ''Downtown Plaza, New York, NY'')
     \<noteq> (PStr ''Downtown Plaza, New York'', PStr ''NY'')"
  by code_simp

text \<open>C3, amended: \<^verbatim>\<open>extract_city_state\<close> applied to \<^verbatim>\<open>"Downtown Plaza, New York, NY"\<close>
  returns \<^verbatim>\<open>("New York", "NY")\<close>, the text between the last two commas and the
  two-letter code; applied to \<^verbatim>\<open>"Unknown Location"\<close>, where the pattern does not match,
  it returns \<^verbatim>\<open>(None, None)\<close>.\<close>

theorem extract_city_state_examples:
  "extract_city_state (Some ''Downtown Plaza, New York, NY'') = (PStr ''New York'', PStr ''NY'')
   \<and> extract_city_state (Some ''Unknown Location'') = (PNone, PNone)"
  by code_simp

theorem extract_city_state_examples_witness:
  "fst (extract_city_state (Some ''Downtown Plaza, New York, NY'')) = PStr ''New York''
   \<and> snd (extract_city_state (Some ''Unknown Location'')) = PNone"
  using extract_city_state_examples by simp

subsection \<open>Numeric coercion\<close>

text \<open>On \<^verbatim>\<open>"1.5"\<close> the area is 1, not 1.5: \<^verbatim>\<open>parse_square_feet\<close> stops at the period.\<close>

theorem parse_square_feet_stops_at_period:
  "parse_square_feet (Some ''1.5'') = Inr (Fin 1)
   \<and> spec_coerce ''1.5'' = Fin (3 / 2)
   \<and> parse_square_feet (Some ''1.5'') \<noteq> Inr (spec_coerce ''1.5'')"
  by code_simp

text \<open>C5, amended: for every input string, \<^verbatim>\<open>parse_price\<close> strips every character that is
  not a digit, comma or period, drops the commas, parses the rest as a number and yields
  \<^verbatim>\<open>nan\<close> on parse failure; \<^verbatim>\<open>parse_square_feet\<close> does the same to the first maximal run of
  digits and commas of the text only, and yields \<^verbatim>\<open>nan\<close> when there is no such run.
  Neither raises, and both yield \<^verbatim>\<open>nan\<close> on \<^verbatim>\<open>"Contact for price"\<close> and on \<^verbatim>\<open>""\<close>.\<close>

theorem numeric_coercion:
  "parse_price (Some s) = Inr (spec_coerce s)
   \<and> parse_square_feet (Some s) =
       Inr (case first_run (\<lambda>c. is_digit c \<or> c = CHR '','') s of
              None \<Rightarrow> NaN | Some g \<Rightarrow> spec_coerce g)
   \<and> parse_price (Some ''Contact for price'') = Inr NaN
   \<and> parse_price (Some '''') = Inr NaN
   \<and> parse_square_feet (Some ''Contact for price'') = Inr NaN
   \<and> parse_square_feet (Some '''') = Inr NaN"
proof -
  have "parse_price (Some ''Contact for price'') = Inr NaN" by code_simp
  moreover have "parse_price (Some '''') = Inr NaN" by code_simp
  moreover have "parse_square_feet (Some ''Contact for price'') = Inr NaN" by code_simp
  moreover have "parse_square_feet (Some '''') = Inr NaN" by code_simp
  ultimately show ?thesis
    using parse_price_spec [of s] parse_square_feet_run [of s] by simp
qed

theorem numeric_coercion_witness:
  "parse_price (Some ''$1,250,000.50'') = Inr (Fin (2500001 / 2))
   \<and> parse_square_feet (Some ''12,500 SF'') = Inr (Fin 12500)"
proof -
  have "spec_coerce ''$1,250,000.50'' = Fin (2500001 / 2)" by code_simp
  moreover have "first_run (\<lambda>c. is_digit c \<or> c = CHR '','') ''12,500 SF'' = Some ''12,500''"
    by code_simp
  moreover have "spec_coerce ''12,500'' = Fin 12500" by code_simp
  ultimately show ?thesis
    using numeric_coercion [of "''$1,250,000.50''"] numeric_coercion [of "''12,500 SF''"]
    by simp
qed

section \<open>Properties of the crawl\<close>

text \<open>What the session counters do between two moments of a crawl before the driver is
  closed: nothing is quit, a session that is held stays held, and at most one is started.\<close>

lemma session_kept_refl: "session_kept st st"
  by (simp add: session_kept_def)

lemma session_kept_trans:
  "session_kept st st1 \<Longrightarrow> session_kept st1 st2 \<Longrightarrow> session_kept st st2"
  by (auto simp: session_kept_def split: if_splits)

lemma session_kept_tick: "session_kept st (tick st)"
  by (simp add: session_kept_def tick_def)

lemma init_driver_kept: "init_driver w st = (r, st1) \<Longrightarrow> session_kept st st1"
  by (auto simp: init_driver_def session_kept_def tick_def split: if_splits init_outcome.splits)

lemma init_driver_properties: "init_driver w st = (r, st1) \<Longrightarrow> properties st1 = properties st"
  by (auto simp: init_driver_def tick_def split: if_splits init_outcome.splits)

lemma scrape_search_page_kept:
  "scrape_search_page cfg w url st = (r, st1) \<Longrightarrow> session_kept st st1"
  by (auto simp: scrape_search_page_def split: if_splits prod.splits option.splits
           intro: session_kept_tick session_kept_trans [OF init_driver_kept session_kept_tick]
           dest: init_driver_kept)

lemma scrape_search_page_properties:
  "scrape_search_page cfg w url st = (r, st1) \<Longrightarrow> properties st1 = properties st"
  by (auto simp: scrape_search_page_def tick_def split: if_splits prod.splits option.splits
           dest: init_driver_properties)

lemma scrape_search_page_error:
  "scrape_search_page cfg w url st = (Inl e, st1) \<Longrightarrow> e = WebDriverException \<and> use_selenium cfg"
  by (auto simp: scrape_search_page_def init_driver_def split: if_splits prod.splits option.splits init_outcome.splits)

lemma scrape_property_try_kept:
  "scrape_property_try cfg w url st = (r, st1) \<Longrightarrow> session_kept st st1"
  by (auto simp: scrape_property_try_def Let_def split: if_splits prod.splits option.splits
           intro: session_kept_tick session_kept_trans [OF init_driver_kept session_kept_tick]
           dest: init_driver_kept)

lemma scrape_property_try_properties:
  "scrape_property_try cfg w url st = (r, st1) \<Longrightarrow> properties st1 = properties st"
  by (auto simp: scrape_property_try_def Let_def tick_def split: if_splits prod.splits option.splits
           dest: init_driver_properties)

lemma scrape_property_returns:
  "\<exists>pd st1. scrape_property cfg w url st = (Inr pd, st1)"
  by (auto simp: scrape_property_def split: prod.splits option.splits)

lemma scrape_property_kept:
  "scrape_property cfg w url st = (r, st1) \<Longrightarrow> session_kept st st1"
  by (auto simp: scrape_property_def split: prod.splits option.splits dest: scrape_property_try_kept)

lemma scrape_property_properties:
  "scrape_property cfg w url st = (r, st1) \<Longrightarrow> properties st1 = properties st"
  by (auto simp: scrape_property_def split: prod.splits option.splits
           dest: scrape_property_try_properties)

lemma extract_one_kept: "extract_one cfg w link st = (r, st1) \<Longrightarrow> session_kept st st1"
  by (auto simp: extract_one_def session_kept_def split: prod.splits sum.splits if_splits
           dest!: scrape_property_kept)

lemma extract_one_no_error: "extract_one cfg w link st = (r, st1) \<Longrightarrow> r = None"
  using scrape_property_returns [of cfg w link st]
  by (auto simp: extract_one_def split: prod.splits sum.splits if_splits)

lemma extract_one_length:
  "extract_one cfg w link st = (r, st1) \<Longrightarrow>
     length (properties st1) \<le> Suc (length (properties st))"
  by (auto simp: extract_one_def split: prod.splits sum.splits if_splits
           dest!: scrape_property_properties)

lemma extract_all_kept:
  "extract_all cfg w cap links st = (r, st1) \<Longrightarrow> session_kept st st1"
proof (induction links arbitrary: st)
  case Nil
  then show ?case by (simp add: session_kept_refl)
next
  case (Cons link links)
  show ?case
  proof (cases "cap \<le> int (length (properties st))")
    case True
    with Cons.prems show ?thesis by (simp add: session_kept_refl)
  next
    case False
    obtain r1 st2 where one: "extract_one cfg w link st = (r1, st2)" by fastforce
    then have r1: "r1 = None" by (rule extract_one_no_error)
    with False one Cons.prems have "extract_all cfg w cap links st2 = (r, st1)" by simp
    then have "session_kept st2 st1" by (rule Cons.IH)
    with extract_one_kept [OF one] show ?thesis by (rule session_kept_trans)
  qed
qed

lemma extract_all_no_error: "extract_all cfg w cap links st = (r, st1) \<Longrightarrow> r = None"
proof (induction links arbitrary: st)
  case Nil
  then show ?case by simp
next
  case (Cons link links)
  show ?case
  proof (cases "cap \<le> int (length (properties st))")
    case True
    with Cons.prems show ?thesis by simp
  next
    case False
    obtain r1 st2 where one: "extract_one cfg w link st = (r1, st2)" by fastforce
    then have r1: "r1 = None" by (rule extract_one_no_error)
    with False one Cons.prems have "extract_all cfg w cap links st2 = (r, st1)" by simp
    then show ?thesis by (rule Cons.IH)
  qed
qed

lemma extract_all_cap:
  "int (length (properties st)) \<le> cap \<Longrightarrow> extract_all cfg w cap links st = (r, st1) \<Longrightarrow>
     int (length (properties st1)) \<le> cap"
proof (induction links arbitrary: st)
  case Nil
  then show ?case by simp
next
  case (Cons link links)
  show ?case
  proof (cases "cap \<le> int (length (properties st))")
    case True
    with Cons.prems show ?thesis by simp
  next
    case False
    obtain r1 st2 where one: "extract_one cfg w link st = (r1, st2)" by fastforce
    then have r1: "r1 = None" by (rule extract_one_no_error)
    from extract_one_length [OF one] False have "int (length (properties st2)) \<le> cap" by simp
    moreover from r1 False one Cons.prems have "extract_all cfg w cap links st2 = (r, st1)" by simp
    ultimately show ?thesis by (rule Cons.IH)
  qed
qed

lemma collect_links_kept:
  "collect_links cfg w cap urls acc st = (r, st1) \<Longrightarrow> session_kept st st1"
proof (induction urls arbitrary: acc st)
  case Nil
  then show ?case by (simp add: session_kept_refl)
next
  case (Cons url urls)
  obtain r1 st2 where page: "scrape_search_page cfg w url st = (r1, st2)" by fastforce
  note k = scrape_search_page_kept [OF page]
  show ?case
  proof (cases r1)
    case (Inl e)
    with page Cons.prems k show ?thesis by simp
  next
    case (Inr links)
    show ?thesis
    proof (cases "cap \<le> int (length (acc @ links))")
      case True
      with Inr page Cons.prems k show ?thesis by simp
    next
      case False
      with Inr page Cons.prems have "collect_links cfg w cap urls (acc @ links) st2 = (r, st1)"
        by simp
      then have "session_kept st2 st1" by (rule Cons.IH)
      with k show ?thesis by (rule session_kept_trans)
    qed
  qed
qed

lemma collect_links_properties:
  "collect_links cfg w cap urls acc st = (r, st1) \<Longrightarrow> properties st1 = properties st"
proof (induction urls arbitrary: acc st)
  case Nil
  then show ?case by simp
next
  case (Cons url urls)
  obtain r1 st2 where page: "scrape_search_page cfg w url st = (r1, st2)" by fastforce
  note k = scrape_search_page_properties [OF page]
  show ?case
  proof (cases r1)
    case (Inl e)
    with page Cons.prems k show ?thesis by simp
  next
    case (Inr links)
    show ?thesis
    proof (cases "cap \<le> int (length (acc @ links))")
      case True
      with Inr page Cons.prems k show ?thesis by simp
    next
      case False
      with Inr page Cons.prems have "collect_links cfg w cap urls (acc @ links) st2 = (r, st1)"
        by simp
      then have "properties st1 = properties st2" by (rule Cons.IH)
      with k show ?thesis by simp
    qed
  qed
qed

lemma collect_links_error:
  "collect_links cfg w cap urls acc st = (Inl e, st1) \<Longrightarrow>
     e = WebDriverException \<and> use_selenium cfg"
proof (induction urls arbitrary: acc st)
  case Nil
  then show ?case by simp
next
  case (Cons url urls)
  obtain r1 st2 where page: "scrape_search_page cfg w url st = (r1, st2)" by fastforce
  show ?case
  proof (cases r1)
    case (Inl e1)
    with page Cons.prems scrape_search_page_error [of cfg w url st e1 st2] show ?thesis by simp
  next
    case (Inr links)
    show ?thesis
    proof (cases "cap \<le> int (length (acc @ links))")
      case True
      with Inr page Cons.prems show ?thesis by simp
    next
      case False
      with Inr page Cons.prems have "collect_links cfg w cap urls (acc @ links) st2 = (Inl e, st1)"
        by simp
      then show ?thesis by (rule Cons.IH)
    qed
  qed
qed

lemma discover_links_kept:
  "discover_links cfg w cap urls st = (r, st1) \<Longrightarrow> session_kept st st1"
  by (auto simp: discover_links_def split: prod.splits sum.splits dest: collect_links_kept)

lemma discover_links_properties:
  "discover_links cfg w cap urls st = (r, st1) \<Longrightarrow> properties st1 = properties st"
  by (auto simp: discover_links_def split: prod.splits sum.splits dest: collect_links_properties)

lemma discover_links_error:
  "discover_links cfg w cap urls st = (Inl e, st1) \<Longrightarrow>
     e = WebDriverException \<and> use_selenium cfg"
  by (auto simp: discover_links_def split: prod.splits sum.splits dest: collect_links_error)

subsection \<open>The cap on the number of records\<close>

text \<open>With a cap of \<open>-1\<close> the crawl of a new scraper returns no record, and 0 is more
  than the cap: no collection can hold fewer records than a negative cap.\<close>

theorem negative_cap_exceeded:
  "\<not> isl (fst (scrape_multiple_pages selenium_config two_seed_world [''A'', ''B''] (- 1)
                  new_scraper))
   \<and> length (projr (fst (scrape_multiple_pages selenium_config two_seed_world [''A'', ''B'']
                            (- 1) new_scraper))) = 0
   \<and> \<not> int (length (projr (fst (scrape_multiple_pages selenium_config two_seed_world
                                    [''A'', ''B''] (- 1) new_scraper)))) \<le> - 1"
  by code_simp

text \<open>C4, amended: for every crawl (any configuration, any list of search pages, any
  answers of the outside) of a scraper that holds at most \<open>max_properties\<close> records when
  the crawl starts, as a newly created scraper does for every cap that is not negative,
  the collection returned holds at most \<open>max_properties\<close> records.\<close>

theorem record_cap:
  assumes "int (length (properties st)) \<le> cap"
    and "scrape_multiple_pages cfg w urls cap st = (Inr df, st')"
  shows "0 \<le> cap \<and> int (length df) \<le> cap"
proof -
  obtain r1 st1 where d: "discover_links cfg w cap urls st = (r1, st1)" by fastforce
  with assms(2) obtain links where r1: "r1 = Inr links"
    by (cases r1) (auto simp: scrape_multiple_pages_def)
  obtain r2 st2 where e: "extract_all cfg w cap links st1 = (r2, st2)" by fastforce
  from discover_links_properties [OF d] assms(1) have "int (length (properties st1)) \<le> cap"
    by simp
  then have "int (length (properties st2)) \<le> cap" using e by (rule extract_all_cap)
  moreover from extract_all_no_error [OF e] d r1 e assms(2)
  have "df = properties (close_driver st2)"
    by (auto simp: scrape_multiple_pages_def Let_def)
  ultimately have "int (length df) \<le> cap" by (simp add: close_driver_def)
  moreover from assms(1) have "0 \<le> cap" by simp
  ultimately show ?thesis by simp
qed

theorem record_cap_witness:
  "int (length (properties new_scraper)) \<le> 2
   \<and> \<not> isl (fst (scrape_multiple_pages selenium_config two_seed_world [''A'', ''B''] 2 new_scraper))
   \<and> length (projr (fst (scrape_multiple_pages selenium_config two_seed_world [''A'', ''B''] 2
                            new_scraper))) = 2"
proof -
  let ?c = "scrape_multiple_pages selenium_config two_seed_world [''A'', ''B''] 2 new_scraper"
  have h: "int (length (properties new_scraper)) \<le> 2" by (simp add: new_scraper_def)
  have r: "\<not> isl (fst ?c)" by code_simp
  then have eq: "?c = (Inr (projr (fst ?c)), snd ?c)"
    by (simp add: prod_eq_iff)
  have "int (length (projr (fst ?c))) \<le> 2"
    using record_cap [OF h eq] by simp
  moreover have "2 \<le> length (projr (fst ?c))" by code_simp
  ultimately show ?thesis using h r by simp
qed

text \<open>\<^verbatim>\<open>self.properties\<close> is set in \<^verbatim>\<open>__init__\<close> only. A scraper that already holds three
  records and crawls again with a cap of 2 returns the three records it held.\<close>

lemma reused_scraper_returns_held_records:
  "length (properties reused_scraper) = 3
   \<and> \<not> isl (fst (scrape_multiple_pages selenium_config two_seed_world [''A'', ''B''] 2
                    reused_scraper))
   \<and> length (projr (fst (scrape_multiple_pages selenium_config two_seed_world [''A'', ''B''] 2
                            reused_scraper))) = 3"
  by code_simp

subsection \<open>The links after discovery\<close>

lemma lists_set_remdups: "lists_set remdups"
  by (simp add: lists_set_def)

lemma distinct_slice_to: "distinct xs \<Longrightarrow> distinct (slice_to n xs)"
  by (simp add: slice_to_def)

lemma set_slice_to: "set (slice_to n xs) \<subseteq> set xs"
  by (auto simp: slice_to_def dest: in_set_takeD)

lemma slice_to_all: "int (length xs) \<le> n \<Longrightarrow> slice_to n xs = xs"
  by (simp add: slice_to_def)

text \<open>C6: whatever links the first loop has gathered from the search pages, with any
  repetitions within a page or across pages, the links the discovery phase hands to the
  extraction hold no duplicate; they are links that were gathered, and all of them when
  the cap allows. Two pages giving L1, L2, L3 and L2, L4 merge to exactly the four links
  (the witness).\<close>

theorem linkset_no_duplicates:
  assumes "lists_set (set_order w)"
    and "collect_links cfg w cap urls [] st = (Inr found, st')"
  shows "\<exists>links. discover_links cfg w cap urls st = (Inr links, st')
           \<and> distinct links \<and> set links \<subseteq> set found
           \<and> (int (card (set found)) \<le> cap \<longrightarrow> set links = set found \<and> length links = card (set found))"
proof -
  let ?all = "set_order w found"
  from assms(1) have d: "distinct ?all" and s: "set ?all = set found"
    by (simp_all add: lists_set_def)
  from d s have len: "length ?all = card (set found)"
    by (metis distinct_card)
  have "discover_links cfg w cap urls st = (Inr (slice_to cap ?all), st')"
    using assms(2) by (simp add: discover_links_def)
  moreover have "distinct (slice_to cap ?all)" using d by (rule distinct_slice_to)
  moreover have "set (slice_to cap ?all) \<subseteq> set found" using set_slice_to [of cap ?all] s by simp
  moreover have "int (card (set found)) \<le> cap \<longrightarrow> slice_to cap ?all = ?all"
    using len by (simp add: slice_to_all)
  ultimately show ?thesis using s len by auto
qed

lemma two_seed_found:
  "fst (collect_links selenium_config two_seed_world 10 [''A'', ''B''] [] new_scraper)
     = Inr [''L1'', ''L2'', ''L3'', ''L2'', ''L4'']"
  by code_simp

theorem linkset_no_duplicates_witness:
  "lists_set (set_order two_seed_world)
   \<and> (\<exists>links st'. discover_links selenium_config two_seed_world 10 [''A'', ''B''] new_scraper
                      = (Inr links, st')
        \<and> distinct links \<and> set links = {''L1'', ''L2'', ''L3'', ''L4''} \<and> length links = 4)"
proof -
  have ord: "lists_set (set_order two_seed_world)"
    by (simp add: two_seed_world_def empty_world_def lists_set_remdups)
  have found: "collect_links selenium_config two_seed_world 10 [''A'', ''B''] [] new_scraper
                 = (Inr [''L1'', ''L2'', ''L3'', ''L2'', ''L4''],
                    snd (collect_links selenium_config two_seed_world 10 [''A'', ''B''] []
                           new_scraper))"
    using two_seed_found by (simp add: prod_eq_iff)
  have card: "card (set [''L1'', ''L2'', ''L3'', ''L2'', ''L4'']) = 4"
    unfolding card_set by code_simp
  from linkset_no_duplicates [OF ord found] card
  show ?thesis using ord by auto
qed

subsection \<open>The browser session\<close>

text \<open>When the browser is created and the script run right after raises on the first
  search page, the crawl ends with that exception, a session started and none quit.\<close>

theorem session_leaked_on_abort:
  "isl (fst (scrape_multiple_pages selenium_config script_fails_world [''A''] 10 new_scraper))
   \<and> driver (snd (scrape_multiple_pages selenium_config script_fails_world [''A''] 10 new_scraper))
   \<and> started (snd (scrape_multiple_pages selenium_config script_fails_world [''A''] 10 new_scraper)) = 1
   \<and> quits (snd (scrape_multiple_pages selenium_config script_fails_world [''A''] 10 new_scraper)) = 0"
  by code_simp


text \<open>C8, amended: a crawl that returns has quit the session exactly once if the scraper
  held one when the crawl began or started one during the crawl, and not at all otherwise;
  it starts at most one session and holds none when it returns. A crawl that ends with an
  exception has quit nothing.\<close>

theorem session_released_once:
  assumes "scrape_multiple_pages cfg w urls cap st = (r, st')"
  shows "(\<forall>df. r = Inr df \<longrightarrow>
            \<not> driver st' \<and> started st' \<le> Suc (started st)
            \<and> quits st' = quits st + (if driver st \<or> started st < started st' then 1 else 0))
         \<and> (\<forall>e. r = Inl e \<longrightarrow> quits st' = quits st)"
proof -
  obtain r1 st1 where d: "discover_links cfg w cap urls st = (r1, st1)" by fastforce
  note k1 = discover_links_kept [OF d]
  show ?thesis
  proof (cases r1)
    case (Inl e)
    with d assms have "r = Inl e" "st' = st1" by (simp_all add: scrape_multiple_pages_def)
    with k1 show ?thesis by (simp add: session_kept_def)
  next
    case (Inr links)
    obtain r2 st2 where e: "extract_all cfg w cap links st1 = (r2, st2)" by fastforce
    have r2: "r2 = None" using e by (rule extract_all_no_error)
    have k2: "session_kept st st2" using k1 extract_all_kept [OF e] by (rule session_kept_trans)
    from Inr d e r2 assms have "r = Inr (properties (close_driver st2))" "st' = close_driver st2"
      by (auto simp: scrape_multiple_pages_def Let_def)
    with k2 show ?thesis
      by (auto simp: session_kept_def close_driver_def split: if_splits)
  qed
qed

theorem session_released_once_witness:
  "\<not> isl (fst (scrape_multiple_pages selenium_config two_seed_world [''A'', ''B''] 2 new_scraper))
   \<and> \<not> driver (snd (scrape_multiple_pages selenium_config two_seed_world [''A'', ''B''] 2 new_scraper))
   \<and> quits (snd (scrape_multiple_pages selenium_config two_seed_world [''A'', ''B''] 2 new_scraper)) = 1"
proof -
  let ?c = "scrape_multiple_pages selenium_config two_seed_world [''A'', ''B''] 2 new_scraper"
  have r: "\<not> isl (fst ?c)" by code_simp
  then have eq: "?c = (Inr (projr (fst ?c)), snd ?c)"
    by (simp add: prod_eq_iff)
  have s: "started (snd ?c) = 1" by code_simp
  from session_released_once [OF eq] s r show ?thesis
    by (simp add: new_scraper_def)
qed

subsection \<open>Failure of the session initialization\<close>

text \<open>When the browser cannot be created on the first search page of a crawl, the crawl
  ends with the exception: no collection is returned.\<close>

theorem session_failure_not_contained:
  "isl (fst (scrape_multiple_pages selenium_config chrome_fails_world [''A''] 10 new_scraper))
   \<and> projl (fst (scrape_multiple_pages selenium_config chrome_fails_world [''A''] 10 new_scraper))
       = WebDriverException"
  by code_simp

text \<open>C2, amended: if the session initialization fails during a crawl (the scraper
  works with the browser, holds no session, and creating one fails at the first search
  page), the exception leaves \<^verbatim>\<open>scrape_multiple_pages\<close>: the crawl halts, no collection is
  returned, and the records already held by the scraper stay as they were.\<close>

theorem session_failure_escapes:
  assumes "use_selenium cfg" and "\<not> driver st" and "chrome_start w (clock st) \<noteq> InitOk"
  shows "\<exists>st'. scrape_multiple_pages cfg w (url # urls) cap st = (Inl WebDriverException, st')
           \<and> properties st' = properties st \<and> quits st' = quits st"
proof -
  from assms obtain st1 where i: "init_driver w st = (Some WebDriverException, st1)"
    by (cases "chrome_start w (clock st)") (simp_all add: init_driver_def)
  then have p: "properties st1 = properties st" by (rule init_driver_properties)
  from i have "session_kept st st1" by (rule init_driver_kept)
  then have q: "quits st1 = quits st" by (simp add: session_kept_def)
  from i assms(1) have "scrape_search_page cfg w url st = (Inl WebDriverException, st1)"
    by (simp add: scrape_search_page_def)
  then have "scrape_multiple_pages cfg w (url # urls) cap st = (Inl WebDriverException, st1)"
    by (simp add: scrape_multiple_pages_def discover_links_def)
  with p q show ?thesis by simp
qed

theorem session_failure_escapes_witness:
  "use_selenium selenium_config \<and> \<not> driver new_scraper
   \<and> chrome_start chrome_fails_world (clock new_scraper) \<noteq> InitOk
   \<and> (\<exists>st'. scrape_multiple_pages selenium_config chrome_fails_world [''A'', ''B''] 10 new_scraper
              = (Inl WebDriverException, st')
        \<and> properties st' = [])"
proof -
  have h1: "use_selenium selenium_config" by (simp add: selenium_config_def)
  have h2: "\<not> driver new_scraper" by (simp add: new_scraper_def)
  have h3: "chrome_start chrome_fails_world (clock new_scraper) \<noteq> InitOk"
    by (simp add: chrome_fails_world_def empty_world_def)
  from session_failure_escapes [OF h1 h2 h3, of "''A''" "[''B'']" 10] h1 h2 h3
  show ?thesis by (auto simp: new_scraper_def)
qed


text \<open>Nothing else leaves the crawl as an exception.\<close>

lemma only_session_failure_escapes:
  assumes "scrape_multiple_pages cfg w urls cap st = (Inl e, st')"
  shows "e = WebDriverException \<and> use_selenium cfg \<and> properties st' = properties st"
proof -
  obtain r1 st1 where d: "discover_links cfg w cap urls st = (r1, st1)" by fastforce
  show ?thesis
  proof (cases r1)
    case (Inl e1)
    with d assms have "e1 = e" "st' = st1" by (simp_all add: scrape_multiple_pages_def)
    with Inl d discover_links_error [of cfg w cap urls st e st1] discover_links_properties [OF d]
    show ?thesis by simp
  next
    case (Inr links)
    obtain r2 st2 where e: "extract_all cfg w cap links st1 = (r2, st2)" by fastforce
    have "r2 = None" using e by (rule extract_all_no_error)
    with Inr d e assms show ?thesis by (simp add: scrape_multiple_pages_def Let_def)
  qed
qed

section \<open>Properties of the extraction of a listing\<close>

lemma leadsI: "(\<And>pd. P pd \<Longrightarrow> Q (snd (f pd))) \<Longrightarrow> leads P f Q"
  by (simp add: leads_def)

lemma leadsD: "leads P f Q \<Longrightarrow> P pd \<Longrightarrow> Q (snd (f pd))"
  by (simp add: leads_def)

lemma leads_skip: "leads P skip P"
  by (simp add: leads_def skip_def)

lemma leads_seq:
  assumes "leads P f Q" and "leads Q g R" and "\<And>pd. Q pd \<Longrightarrow> R pd"
  shows "leads P (seq f g) R"
proof (rule leadsI)
  fix pd assume "P pd"
  with assms(1) have q: "Q (snd (f pd))" by (rule leadsD)
  obtain x pd1 where f: "f pd = (x, pd1)" by (cases "f pd")
  show "R (snd (seq f g pd))"
  proof (cases x)
    case None
    with f have "seq f g pd = g (snd (f pd))" by (simp add: seq_def)
    with leadsD [OF assms(2) q] show ?thesis by simp
  next
    case (Some e)
    with f have "snd (seq f g pd) = snd (f pd)" by (simp add: seq_def)
    with assms(3) [OF q] show ?thesis by simp
  qed
qed

lemma leads_seq_same: "leads P f P \<Longrightarrow> leads P g P \<Longrightarrow> leads P (seq f g) P"
  by (rule leads_seq)

lemma leads_guarded: "leads P f Q \<Longrightarrow> leads P (guarded f) Q"
  by (simp add: leads_def guarded_def)

lemma leads_on_text:
  "(\<And>t. leads P (f t) Q) \<Longrightarrow> (\<And>pd. P pd \<Longrightarrow> Q pd) \<Longrightarrow> leads P (on_text f el) Q"
  by (cases el) (simp_all add: on_text_def leads_def skip_def)

lemma leads_if_not: "leads P body P \<Longrightarrow> leads P (if_not a body) P"
  by (auto simp: leads_def if_not_def split: sum.splits)

lemma leads_if_and: "leads P body P \<Longrightarrow> leads P (if_and a b body) P"
  by (auto simp: leads_def if_and_def split: sum.splits)

lemma leads_assign:
  "(\<And>pd v. P pd \<Longrightarrow> e pd = Inr v \<Longrightarrow> P (pd(k \<mapsto> v))) \<Longrightarrow> leads P (assign k e) P"
  by (auto simp: leads_def assign_def split: sum.splits)

lemma writes_only_mono: "writes_only K f \<Longrightarrow> K \<subseteq> K' \<Longrightarrow> writes_only K' f"
  by (auto simp: writes_only_def)

lemma writes_only_skip: "writes_only K skip"
  by (simp add: writes_only_def skip_def)

lemma writes_only_assign: "k \<in> K \<Longrightarrow> writes_only K (assign k e)"
  by (auto simp: writes_only_def assign_def split: sum.splits)

lemma writes_only_seq: "writes_only K f \<Longrightarrow> writes_only K g \<Longrightarrow> writes_only K (seq f g)"
  by (auto simp: writes_only_def seq_def split: prod.splits option.splits) (metis snd_conv)+

lemma writes_only_guarded: "writes_only K f \<Longrightarrow> writes_only K (guarded f)"
  by (simp add: writes_only_def guarded_def)

lemma writes_only_on_text: "(\<And>t. writes_only K (f t)) \<Longrightarrow> writes_only K (on_text f el)"
  by (cases el) (simp_all add: on_text_def writes_only_skip)

lemma writes_only_if_not: "writes_only K body \<Longrightarrow> writes_only K (if_not a body)"
  by (auto simp: writes_only_def if_not_def split: sum.splits)

lemma writes_only_if_and: "writes_only K body \<Longrightarrow> writes_only K (if_and a b body)"
  by (auto simp: writes_only_def if_and_def split: sum.splits)

lemmas writes_only_intros =
  writes_only_skip writes_only_assign writes_only_seq writes_only_guarded
  writes_only_on_text writes_only_if_not writes_only_if_and

lemma writes_title_step: "writes_only {''title''} (title_step t)"
  by (simp add: title_step_def writes_only_intros)

lemma writes_description_step: "writes_only {''description''} (description_step t)"
  by (simp add: description_step_def writes_only_intros)

lemma writes_price_step: "writes_only {''price''} (price_step t)"
  by (simp add: price_step_def writes_only_intros)

lemma writes_sqft_step: "writes_only {''square_feet'', ''price_per_sqft''} (sqft_step t)"
  by (simp add: sqft_step_def writes_only_intros)

lemma writes_location_step: "writes_only {''address'', ''city'', ''state''} (location_step t)"
  by (simp add: location_step_def writes_only_intros)

lemma writes_static_fields: "writes_only element_keys (static_fields pg)"
  unfolding static_fields_def
  by (intro writes_only_seq writes_only_on_text
        writes_only_mono [OF writes_title_step] writes_only_mono [OF writes_description_step]
        writes_only_mono [OF writes_price_step] writes_only_mono [OF writes_sqft_step]
        writes_only_mono [OF writes_location_step])
     (simp_all add: element_keys_def)

lemma writes_selenium_fields: "writes_only element_keys (selenium_fields pg)"
  unfolding selenium_fields_def
  by (intro writes_only_seq writes_only_guarded writes_only_on_text
        writes_only_mono [OF writes_title_step] writes_only_mono [OF writes_description_step]
        writes_only_mono [OF writes_price_step] writes_only_mono [OF writes_sqft_step]
        writes_only_mono [OF writes_location_step])
     (simp_all add: element_keys_def)

lemma writes_meta_step: "writes_only {''title'', ''description''} (meta_step m)"
  by (cases m) (simp add: meta_step_def writes_only_intros)

lemma writes_meta_pass: "writes_only {''title'', ''description''} (meta_pass ms)"
  by (induction ms) (simp_all add: writes_only_intros writes_meta_step)

lemma writes_find_id: "writes_only {''property_id''} (find_id parts)"
  by (induction parts rule: find_id.induct)
     (auto simp: writes_only_def skip_def assign_def lit_def split: list.splits)

lemma writes_id_step: "writes_only {''property_id''} (id_step url)"
  by (simp add: id_step_def writes_only_intros writes_find_id)

lemma leads_on_text_same: "(\<And>t. leads P (f t) P) \<Longrightarrow> leads P (on_text f el) P"
  by (rule leads_on_text)

lemma leads_frame:
  assumes "writes_only K f"
    and "\<And>pd pd'. P pd \<Longrightarrow> (\<forall>k. k \<notin> K \<longrightarrow> pd' k = pd k) \<Longrightarrow> P pd'"
  shows "leads P f P"
proof (rule leadsI)
  fix pd assume "P pd"
  moreover have "\<forall>k. k \<notin> K \<longrightarrow> snd (f pd) k = pd k"
    using assms(1) by (simp add: writes_only_def)
  ultimately show "P (snd (f pd))" by (rule assms(2))
qed

lemma leads_meta_pass: "(\<And>m. leads P (meta_step m) P) \<Longrightarrow> leads P (meta_pass ms) P"
  by (induction ms) (simp_all add: leads_skip leads_seq_same)

text \<open>What \<^verbatim>\<open>scrape_property\<close> returns is the new dictionary after some of the passes.\<close>

lemma scrape_property_shape:
  assumes "scrape_property cfg w url st = (Inr pd, st')"
  shows "pd = new_property_data url
         \<or> (\<exists>pg :: selenium_page. pd = snd (selenium_fields pg (new_property_data url)))
         \<or> (\<exists>(pg :: selenium_page) ms.
               pd = snd (seq (meta_pass ms) (id_step url)
                          (snd (selenium_fields pg (new_property_data url)))))
         \<or> (\<exists>pg :: static_page.
               pd = snd (seq (static_fields pg) (seq (meta_pass (meta_tags pg)) (id_step url))
                          (new_property_data url)))"
proof (cases "use_selenium cfg")
  case True
  obtain r1 st1 where i: "init_driver w st = (r1, st1)" by (cases "init_driver w st")
  show ?thesis
  proof (cases r1)
    case (Some e)
    with True i assms show ?thesis
      by (simp add: scrape_property_def scrape_property_try_def)
  next
    case None
    show ?thesis
    proof (cases "detail_selenium w (clock st1) url")
      case None
      with True i \<open>r1 = None\<close> assms show ?thesis
        by (simp add: scrape_property_def scrape_property_try_def)
    next
      case (Some pg)
      obtain x pd1 where f: "selenium_fields pg (new_property_data url) = (x, pd1)"
        by (cases "selenium_fields pg (new_property_data url)")
      then have pd1: "pd1 = snd (selenium_fields pg (new_property_data url))" by simp
      show ?thesis
      proof (cases "x = None \<and> page_source pg \<noteq> None")
        case False
        with True i \<open>r1 = None\<close> Some f assms have "pd = pd1"
          by (auto simp: scrape_property_def scrape_property_try_def split: option.splits)
        with pd1 show ?thesis by blast
      next
        case yes: True
        then obtain ms where ms: "page_source pg = Some ms" by blast
        obtain y pd2 where g: "seq (meta_pass ms) (id_step url) pd1 = (y, pd2)"
          by (cases "seq (meta_pass ms) (id_step url) pd1")
        with True i \<open>r1 = None\<close> Some f yes ms assms have "pd = pd2"
          by (auto simp: scrape_property_def scrape_property_try_def split: option.splits)
        with g pd1 have "pd = snd (seq (meta_pass ms) (id_step url)
                                 (snd (selenium_fields pg (new_property_data url))))"
          by simp
        then show ?thesis by blast
      qed
    qed
  qed
next
  case False
  show ?thesis
  proof (cases "detail_static w (clock st) url")
    case None
    with False assms show ?thesis
      by (simp add: scrape_property_def scrape_property_try_def)
  next
    case (Some pg)
    obtain y pd2 where g: "seq (static_fields pg) (seq (meta_pass (meta_tags pg)) (id_step url))
                             (new_property_data url) = (y, pd2)"
      by (cases "seq (static_fields pg) (seq (meta_pass (meta_tags pg)) (id_step url))
                   (new_property_data url)")
    with False Some assms have "pd = pd2"
      by (auto simp: scrape_property_def scrape_property_try_def split: option.splits)
    with g have "pd = snd (seq (static_fields pg) (seq (meta_pass (meta_tags pg)) (id_step url))
                             (new_property_data url))"
      by simp
    then show ?thesis by blast
  qed
qed

lemma scrape_property_inv:
  assumes run: "scrape_property cfg w url st = (Inr pd, st')"
    and new: "A (new_property_data url)"
    and weak: "\<And>d. A d \<Longrightarrow> R d"
    and sel: "\<And>pg :: selenium_page. leads A (selenium_fields pg) R"
    and sta: "\<And>pg :: static_page. leads A (static_fields pg) R"
    and meta: "\<And>ms. leads R (meta_pass ms) R"
    and ident: "leads R (id_step url) R"
  shows "R pd"
proof -
  have tail: "\<And>ms. leads R (seq (meta_pass ms) (id_step url)) R"
    by (rule leads_seq_same [OF meta ident])
  have full: "\<And>pg :: static_page.
                leads A (seq (static_fields pg) (seq (meta_pass (meta_tags pg)) (id_step url))) R"
    by (rule leads_seq [OF sta tail])
  note S = leadsD [OF sel new]
  from scrape_property_shape [OF run] show ?thesis
    using weak [OF new] S leadsD [OF tail S] leadsD [OF full new] by auto
qed


lemma digit_val_nonneg: "is_digit c \<Longrightarrow> 0 \<le> digit_val c"
  by (auto simp: is_digit_def digit_val_def)

lemma foldl_dec_nonneg:
  "list_all is_digit s \<Longrightarrow> 0 \<le> n \<Longrightarrow> 0 \<le> foldl (\<lambda>n c. 10 * n + digit_val c) n s"
proof (induction s arbitrary: n)
  case Nil
  then show ?case by simp
next
  case (Cons c s)
  from Cons.prems have "0 \<le> 10 * n + digit_val c"
    using digit_val_nonneg [of c] by simp
  with Cons show ?case by simp
qed

lemma dec_nonneg: "list_all is_digit s \<Longrightarrow> 0 \<le> dec s"
  by (simp add: dec_def foldl_dec_nonneg)

lemma py_float_nonneg: "py_float s = Inr r \<Longrightarrow> 0 \<le> r"
proof -
  assume a: "py_float s = Inr r"
  have ip: "0 \<le> dec (takeWhile is_digit s)"
    by (rule dec_nonneg) (simp add: list_all_iff, meson set_takeWhileD)
  show ?thesis
  proof (cases "dropWhile is_digit s")
    case Nil
    with a ip show ?thesis by (auto simp: py_float_def Let_def split: if_splits)
  next
    case (Cons c fp)
    with a have d: "list_all is_digit fp"
      and r: "r = of_int (dec (takeWhile is_digit s)) + of_int (dec fp) / 10 ^ length fp"
      by (auto simp: py_float_def Let_def split: if_splits)
    from d have "0 \<le> dec fp" by (rule dec_nonneg)
    with ip r show ?thesis by simp
  qed
qed

lemma spec_coerce_area: "is_area (PFloat (spec_coerce s))"
  by (auto simp: spec_coerce_def is_area_def Let_def split: sum.splits dest: py_float_nonneg)

lemma parse_square_feet_area: "\<exists>v. parse_square_feet (Some t) = Inr v \<and> is_area (PFloat v)"
  using spec_coerce_area
  by (auto simp: parse_square_feet_run is_area_def split: option.splits)

lemma parse_price_price: "\<exists>v. parse_price (Some t) = Inr v"
  by (simp add: parse_price_spec)

lemma before_sqft_frame:
  "before_sqft pd \<Longrightarrow> pd' ''price'' = pd ''price'' \<Longrightarrow>
   pd' ''square_feet'' = pd ''square_feet'' \<Longrightarrow>
   pd' ''price_per_sqft'' = pd ''price_per_sqft'' \<Longrightarrow> before_sqft pd'"
  by (simp add: before_sqft_def split: option.splits)

lemma price_rule_frame:
  "price_rule pd \<Longrightarrow> pd' ''price'' = pd ''price'' \<Longrightarrow>
   pd' ''square_feet'' = pd ''square_feet'' \<Longrightarrow>
   pd' ''price_per_sqft'' = pd ''price_per_sqft'' \<Longrightarrow> price_rule pd'"
  by (simp add: price_rule_def split: option.splits)

lemma before_sqft_rule: "before_sqft pd \<Longrightarrow> price_rule pd"
  by (auto simp: before_sqft_def price_rule_def is_area_def split: option.splits)

lemma before_sqft_new: "before_sqft (new_property_data url)"
  by (simp add: before_sqft_def new_property_data_def is_price_def)

lemma before_title: "leads before_sqft (title_step t) before_sqft"
  by (rule leads_frame [OF writes_title_step]) (erule before_sqft_frame, simp_all)

lemma before_description: "leads before_sqft (description_step t) before_sqft"
  by (rule leads_frame [OF writes_description_step]) (erule before_sqft_frame, simp_all)

lemma before_price: "leads before_sqft (price_step t) before_sqft"
  using parse_price_price [of t]
  by (auto simp: leads_def price_step_def assign_def lit_float_def before_sqft_def is_price_def
           split: option.splits)

lemma py_truediv_defined:
  "is_price p \<Longrightarrow> is_area a \<Longrightarrow> truthy p \<Longrightarrow> truthy a \<Longrightarrow> \<exists>q. py_truediv p a = Inr q"
  by (cases "(p, a)" rule: py_truediv.cases) (auto simp: is_price_def is_area_def)

lemma sqft_rule: "leads before_sqft (sqft_step t) price_rule"
proof (rule leadsI)
  fix pd assume b: "before_sqft pd"
  then obtain p where p: "pd ''price'' = Some p" "is_price p"
    by (auto simp: before_sqft_def split: option.splits)
  obtain v where v: "parse_square_feet (Some t) = Inr v" "is_area (PFloat v)"
    using parse_square_feet_area by blast
  let ?pd1 = "pd(''square_feet'' \<mapsto> PFloat v)"
  from b have q0: "pd ''price_per_sqft'' = Some PNone" by (auto simp: before_sqft_def split: option.splits)
  show "price_rule (snd (sqft_step t pd))"
  proof (cases "truthy p \<and> truthy (PFloat v)")
    case False
    with p v q0 show ?thesis
      by (auto simp: sqft_step_def seq_def assign_def lit_float_def if_and_def item_def
                     price_rule_def)
  next
    case True
    with p v obtain q where q: "py_truediv p (PFloat v) = Inr q"
      using py_truediv_defined by blast
    with True p v q0 show ?thesis
      by (auto simp: sqft_step_def seq_def assign_def lit_float_def if_and_def item_def
                     truediv_def price_rule_def)
  qed
qed

lemma rule_location: "leads price_rule (location_step t) price_rule"
  by (rule leads_frame [OF writes_location_step]) (erule price_rule_frame, simp_all)

lemma fields_chain:
  assumes "leads A f1 A" and "leads A f2 A" and "leads A f3 A" and "leads A f4 R"
    and "leads R f5 R" and weak: "\<And>pd. A pd \<Longrightarrow> R pd"
  shows "leads A (seq f1 (seq f2 (seq f3 (seq f4 f5)))) R"
proof -
  have "leads A (seq f4 f5) R" using assms(4,5) by (rule leads_seq)
  with assms(3) have "leads A (seq f3 (seq f4 f5)) R" by (rule leads_seq) (rule weak)
  with assms(2) have "leads A (seq f2 (seq f3 (seq f4 f5))) R" by (rule leads_seq) (rule weak)
  with assms(1) show ?thesis by (rule leads_seq) (rule weak)
qed

lemma rule_static_fields: "leads before_sqft (static_fields pg) price_rule"
  unfolding static_fields_def
proof (rule fields_chain)
  show "leads before_sqft (on_text title_step (title_el pg)) before_sqft"
    by (rule leads_on_text_same) (rule before_title)
  show "leads before_sqft (on_text description_step (description_el pg)) before_sqft"
    by (rule leads_on_text_same) (rule before_description)
  show "leads before_sqft (on_text price_step (price_el pg)) before_sqft"
    by (rule leads_on_text_same) (rule before_price)
  show "leads before_sqft (on_text sqft_step (sqft_el pg)) price_rule"
    by (rule leads_on_text) (rule sqft_rule, erule before_sqft_rule)
  show "leads price_rule (on_text location_step (location_el pg)) price_rule"
    by (rule leads_on_text_same) (rule rule_location)
qed (erule before_sqft_rule)

lemma rule_selenium_fields: "leads before_sqft (selenium_fields pg) price_rule"
  unfolding selenium_fields_def
proof (rule fields_chain)
  show "leads before_sqft (guarded (on_text title_step (title_el pg))) before_sqft"
    by (rule leads_guarded, rule leads_on_text_same) (rule before_title)
  show "leads before_sqft (guarded (on_text description_step (description_el pg))) before_sqft"
    by (rule leads_guarded, rule leads_on_text_same) (rule before_description)
  show "leads before_sqft (guarded (on_text price_step (price_el pg))) before_sqft"
    by (rule leads_guarded, rule leads_on_text_same) (rule before_price)
  show "leads before_sqft (guarded (on_text sqft_step (sqft_el pg))) price_rule"
    by (rule leads_guarded, rule leads_on_text) (rule sqft_rule, erule before_sqft_rule)
  show "leads price_rule (guarded (on_text location_step (location_el pg))) price_rule"
    by (rule leads_guarded, rule leads_on_text_same) (rule rule_location)
qed (erule before_sqft_rule)

lemma rule_meta_pass: "leads price_rule (meta_pass ms) price_rule"
  by (rule leads_frame [OF writes_meta_pass]) (erule price_rule_frame, simp_all)

lemma rule_id_step: "leads price_rule (id_step url) price_rule"
  by (rule leads_frame [OF writes_id_step]) (erule price_rule_frame, simp_all)

lemma scrape_property_price_rule:
  "scrape_property cfg w url st = (Inr pd, st') \<Longrightarrow> price_rule pd"
  by (rule scrape_property_inv [where A = before_sqft and R = price_rule])
     (assumption, rule before_sqft_new, erule before_sqft_rule, rule rule_selenium_fields,
      rule rule_static_fields, rule rule_meta_pass, rule rule_id_step)


subsection \<open>Title and description are texts or None\<close>

lemma text_fields_frame:
  "text_fields pd \<Longrightarrow> pd' ''title'' = pd ''title'' \<Longrightarrow>
   pd' ''description'' = pd ''description'' \<Longrightarrow> text_fields pd'"
  by (simp add: text_fields_def)

lemma text_fields_new: "text_fields (new_property_data url)"
  by (simp add: text_fields_def text_or_none_def new_property_data_def)

lemma text_title: "leads text_fields (title_step t) text_fields"
  by (simp add: leads_def title_step_def assign_def lit_def text_fields_def text_or_none_def)

lemma text_description: "leads text_fields (description_step t) text_fields"
  by (simp add: leads_def description_step_def assign_def lit_def text_fields_def
                text_or_none_def)

lemma text_price: "leads text_fields (price_step t) text_fields"
  by (rule leads_frame [OF writes_price_step]) (erule text_fields_frame, simp_all)

lemma text_sqft: "leads text_fields (sqft_step t) text_fields"
  by (rule leads_frame [OF writes_sqft_step]) (erule text_fields_frame, simp_all)

lemma text_location: "leads text_fields (location_step t) text_fields"
  by (rule leads_frame [OF writes_location_step]) (erule text_fields_frame, simp_all)

lemma text_static_fields: "leads text_fields (static_fields pg) text_fields"
  unfolding static_fields_def
  by (rule fields_chain; (rule leads_on_text_same)?)
     (rule text_title text_description text_price text_sqft text_location | assumption)+

lemma text_selenium_fields: "leads text_fields (selenium_fields pg) text_fields"
  unfolding selenium_fields_def
  by (rule fields_chain; (rule leads_guarded, rule leads_on_text_same)?)
     (rule text_title text_description text_price text_sqft text_location | assumption)+

lemma text_meta_step: "leads text_fields (meta_step m) text_fields"
  by (cases m)
     (auto simp: meta_step_def leads_skip lit_def text_fields_def text_or_none_def
           intro!: leads_if_not leads_assign)

lemma text_meta_pass: "leads text_fields (meta_pass ms) text_fields"
  by (rule leads_meta_pass) (rule text_meta_step)

lemma text_id_step: "leads text_fields (id_step url) text_fields"
  by (rule leads_frame [OF writes_id_step]) (erule text_fields_frame, simp_all)

lemma scrape_property_text_fields:
  "scrape_property cfg w url st = (Inr pd, st') \<Longrightarrow> text_fields pd"
  by (rule scrape_property_inv [where A = text_fields and R = text_fields])
     (assumption, rule text_fields_new, assumption, rule text_selenium_fields,
      rule text_static_fields, rule text_meta_pass, rule text_id_step)

subsection \<open>The keys\<close>

lemma property_keys_count: "length property_keys = 15 \<and> distinct property_keys"
  by (simp add: property_keys_def)

lemma has_keys_new: "has_keys (new_property_data url)"
  by (auto simp: has_keys_def new_property_data_def property_keys_def)

lemma has_keys_assign: "k \<in> set property_keys \<Longrightarrow> leads has_keys (assign k e) has_keys"
  by (rule leads_assign) (auto simp: has_keys_def)

lemmas has_keys_intros =
  leads_skip leads_seq_same leads_guarded leads_on_text_same leads_if_not leads_if_and
  has_keys_assign

lemma keys_static_fields: "leads has_keys (static_fields pg) has_keys"
  unfolding static_fields_def title_step_def description_step_def price_step_def sqft_step_def
    location_step_def
  by (intro has_keys_intros) (simp_all add: property_keys_def)

lemma keys_selenium_fields: "leads has_keys (selenium_fields pg) has_keys"
  unfolding selenium_fields_def title_step_def description_step_def price_step_def
    sqft_step_def location_step_def
  by (intro has_keys_intros) (simp_all add: property_keys_def)

lemma keys_meta_step: "leads has_keys (meta_step m) has_keys"
  by (cases m) (auto simp: meta_step_def property_keys_def intro!: has_keys_intros)

lemma keys_meta_pass: "leads has_keys (meta_pass ms) has_keys"
  by (rule leads_meta_pass) (rule keys_meta_step)

lemma keys_find_id: "leads has_keys (find_id parts) has_keys"
proof (induction parts rule: find_id.induct)
  case 1
  show ?case by (simp add: leads_skip)
next
  case (2 part)
  show ?case by (simp add: leads_skip)
next
  case (3 part nxt rest)
  have a: "leads has_keys (assign ''property_id'' e) has_keys" for e
    by (rule has_keys_assign) (simp add: property_keys_def)
  have r: "leads has_keys (\<lambda>pd. (Some IndexError, pd)) has_keys"
    by (simp add: leads_def)
  from 3 a r show ?case by (auto split: list.splits)
qed

lemma keys_id_step: "leads has_keys (id_step url) has_keys"
  by (simp add: id_step_def leads_skip keys_find_id)

lemma scrape_property_has_keys:
  "scrape_property cfg w url st = (Inr pd, st') \<Longrightarrow> dom pd = set property_keys"
  unfolding has_keys_def [symmetric]
  by (rule scrape_property_inv [where A = has_keys and R = has_keys])
     (assumption, rule has_keys_new, assumption, rule keys_selenium_fields,
      rule keys_static_fields, rule keys_meta_pass, rule keys_id_step)

subsection \<open>Keys no pass writes\<close>

lemma leads_untouched: "writes_only K f \<Longrightarrow> k \<notin> K \<Longrightarrow> leads (\<lambda>pd. pd k = v) f (\<lambda>pd. pd k = v)"
  by (simp add: leads_def writes_only_def)

lemma scrape_property_untouched:
  assumes "scrape_property cfg w url st = (Inr pd, st')"
    and "k \<notin> element_keys" and "k \<noteq> ''property_id''"
  shows "pd k = new_property_data url k"
proof -
  from assms(2) have td: "k \<notin> {''title'', ''description''}" by (auto simp: element_keys_def)
  from assms(3) have i: "k \<notin> {''property_id''}" by simp
  let ?P = "\<lambda>pd. pd k = new_property_data url k"
  show ?thesis
    by (rule scrape_property_inv [where A = ?P and R = ?P, OF assms(1)])
       (simp, assumption,
        rule leads_untouched [OF writes_selenium_fields assms(2)],
        rule leads_untouched [OF writes_static_fields assms(2)],
        rule leads_untouched [OF writes_meta_pass td],
        rule leads_untouched [OF writes_id_step i])
qed


subsection \<open>Price per square foot\<close>

lemma pyval_shapes:
  "v = PNone \<or> (\<exists>s. v = PStr s) \<or> v = PFloat NaN \<or> (\<exists>x. v = PFloat (Fin x))"
  by (cases v rule: truthy.cases) auto

text \<open>A listing priced \<^verbatim>\<open>$0\<close> with 100 square feet: price and area are numbers, the area
  is positive, and no ratio is stored.\<close>

theorem free_listing_has_no_ratio:
  "projr (fst (scrape_property static_config (static_world free_listing) ''L'' new_scraper)) ''price''
     = Some (PFloat (Fin 0))
   \<and> projr (fst (scrape_property static_config (static_world free_listing) ''L'' new_scraper))
        ''square_feet'' = Some (PFloat (Fin 100))
   \<and> projr (fst (scrape_property static_config (static_world free_listing) ''L'' new_scraper))
        ''price_per_sqft'' = Some PNone"
  by code_simp

text \<open>C1, amended: in every record returned by \<^verbatim>\<open>scrape_property\<close>,
  \<^verbatim>\<open>price_per_sqft\<close> equals \<^verbatim>\<open>price / square_feet\<close> whenever both are numbers, the price
  is not zero and \<^verbatim>\<open>square_feet > 0\<close>; in every other case (a missing or unparsable
  price or area, an area of zero, a price of zero) it is null, that is \<^verbatim>\<open>None\<close> or
  \<^verbatim>\<open>nan\<close>.\<close>

theorem price_per_sqft_rule:
  assumes "scrape_property cfg w url st = (Inr pd, st')"
  shows "(\<forall>x y. pd ''price'' = Some (PFloat (Fin x)) \<and> pd ''square_feet'' = Some (PFloat (Fin y))
               \<and> x \<noteq> 0 \<and> 0 < y
            \<longrightarrow> pd ''price_per_sqft'' = Some (PFloat (Fin (x / y))))
       \<and> ((\<nexists>x y. pd ''price'' = Some (PFloat (Fin x)) \<and> pd ''square_feet'' = Some (PFloat (Fin y))
               \<and> x \<noteq> 0 \<and> 0 < y)
            \<longrightarrow> pd ''price_per_sqft'' = Some PNone \<or> pd ''price_per_sqft'' = Some (PFloat NaN))"
proof -
  from assms have "price_rule pd" by (rule scrape_property_price_rule)
  then obtain p a q where v: "pd ''price'' = Some p" "pd ''square_feet'' = Some a"
      "pd ''price_per_sqft'' = Some q" "is_price p" "is_area a"
      and q: "if truthy p \<and> truthy a then py_truediv p a = Inr q else q = PNone"
    by (auto simp: price_rule_def split: option.splits)
  show ?thesis
    using pyval_shapes [of p] pyval_shapes [of a] v q
    by (auto simp: is_price_def is_area_def split: if_splits)
qed

theorem price_per_sqft_rule_witness:
  "\<not> isl (fst (scrape_property static_config (static_world priced_listing) ''L'' new_scraper))
   \<and> projr (fst (scrape_property static_config (static_world priced_listing) ''L'' new_scraper))
        ''price_per_sqft'' = Some (PFloat (Fin 2))"
proof -
  let ?r = "scrape_property static_config (static_world priced_listing) ''L'' new_scraper"
  have r: "\<not> isl (fst ?r)" by code_simp
  then have eq: "?r = (Inr (projr (fst ?r)), snd ?r)" by (simp add: prod_eq_iff)
  have p: "projr (fst ?r) ''price'' = Some (PFloat (Fin 1000))" by code_simp
  have a: "projr (fst ?r) ''square_feet'' = Some (PFloat (Fin 500))" by code_simp
  from price_per_sqft_rule [OF eq] p a r show ?thesis by simp
qed


subsection \<open>Which records are kept\<close>

lemma truthy_text:
  "text_or_none (pd k) \<Longrightarrow> truthy (dict_get pd k) = (\<exists>s. s \<noteq> [] \<and> pd k = Some (PStr s))"
  by (auto simp: text_or_none_def dict_get_def split: option.splits pyval.splits)

text \<open>A page whose title element holds only a space and that has no description: the
  title extracted is the empty string, not \<^verbatim>\<open>None\<close>, and the record is not kept.\<close>

theorem blank_title_discarded:
  "projr (fst (scrape_property static_config (static_world blank_title_listing) ''L'' new_scraper))
     ''title'' = Some (PStr [])
   \<and> length (properties (snd (extract_one static_config (static_world blank_title_listing) ''L''
                                 new_scraper))) = 0"
  by code_simp

text \<open>C7, amended: in the extraction loop the record of a link is appended to the
  collection if and only if its title or its description, after extraction, is a
  non-empty text; a record whose title and description are both \<^verbatim>\<open>None\<close> or empty is
  discarded.\<close>

theorem record_kept_iff:
  assumes "scrape_property cfg w link st = (Inr pd, st1)"
  shows "extract_one cfg w link st =
           (None,
            if \<exists>s. s \<noteq> [] \<and> (pd ''title'' = Some (PStr s) \<or> pd ''description'' = Some (PStr s))
            then st1\<lparr>properties := properties st @ [pd]\<rparr> else st1)
         \<and> properties st1 = properties st"
proof -
  from assms have "text_fields pd" by (rule scrape_property_text_fields)
  then have t: "truthy (dict_get pd ''title'') = (\<exists>s. s \<noteq> [] \<and> pd ''title'' = Some (PStr s))"
    and d: "truthy (dict_get pd ''description'')
              = (\<exists>s. s \<noteq> [] \<and> pd ''description'' = Some (PStr s))"
    by (simp_all add: text_fields_def truthy_text)
  from assms have p: "properties st1 = properties st" by (rule scrape_property_properties)
  from assms t d p show ?thesis
    by (auto simp: extract_one_def)
qed

theorem record_kept_iff_witness:
  "\<not> isl (fst (scrape_property static_config (static_world priced_listing) ''L'' new_scraper))
   \<and> length (properties (snd (extract_one static_config (static_world priced_listing) ''L''
                                 new_scraper))) = 1"
proof -
  let ?r = "scrape_property static_config (static_world priced_listing) ''L'' new_scraper"
  have r: "\<not> isl (fst ?r)" by code_simp
  then have eq: "?r = (Inr (projr (fst ?r)), snd ?r)" by (simp add: prod_eq_iff)
  have t: "projr (fst ?r) ''title'' = Some (PStr ''Office'')" by code_simp
  then have "\<exists>s. s \<noteq> [] \<and> (projr (fst ?r) ''title'' = Some (PStr s)
                          \<or> projr (fst ?r) ''description'' = Some (PStr s))"
    by (intro exI [of _ "''Office''"]) simp
  with record_kept_iff [OF eq] r show ?thesis by (simp add: new_scraper_def)
qed

subsection \<open>The pass over the meta tags\<close>

lemma meta_step_keeps:
  assumes "truthy v" and "k = ''title'' \<or> k = ''description''"
  shows "leads (\<lambda>pd. pd k = Some v) (meta_step m) (\<lambda>pd. pd k = Some v)"
proof (cases m)
  case (Pair name content)
  show ?thesis
  proof (rule leadsI)
    fix pd :: pdict assume "pd k = Some v"
    with assms Pair show "snd (meta_step m pd) k = Some v"
      by (auto simp: meta_step_def if_not_def item_def assign_def lit_def skip_def
               split: option.splits)
  qed
qed

lemma meta_pass_keeps:
  assumes "truthy v" and "k = ''title'' \<or> k = ''description''" and "pd k = Some v"
  shows "snd (meta_pass ms pd) k = Some v"
  using leads_meta_pass [of "\<lambda>pd. pd k = Some v" ms, OF meta_step_keeps [OF assms(1,2)]] assms(3)
  by (simp add: leads_def)

text \<open>A page whose title element holds only a space, with an \<^verbatim>\<open>og:title\<close> tag: the primary
  pass leaves the empty string as title, not \<^verbatim>\<open>None\<close>, and the pass over the tags
  replaces it.\<close>

theorem blank_title_overridden:
  "snd (static_fields blank_title_with_meta (new_property_data ''L'')) ''title'' = Some (PStr [])
   \<and> snd (meta_pass (meta_tags blank_title_with_meta)
            (snd (static_fields blank_title_with_meta (new_property_data ''L'')))) ''title''
       = Some (PStr ''Tower'')"
  by code_simp

text \<open>C9, amended: the pass over the meta tags assigns title (resp. description) only
  when that field is \<^verbatim>\<open>None\<close> or the empty string after the primary pass; a non-empty text
  produced by the primary pass is never replaced.\<close>

theorem metadata_fills_only_empty:
  assumes "pd1 = snd (static_fields pg (new_property_data url))
           \<or> pd1 = snd (selenium_fields pg' (new_property_data url))"
    and "k = ''title'' \<or> k = ''description''"
  shows "(\<forall>s. pd1 k = Some (PStr s) \<and> s \<noteq> [] \<longrightarrow> snd (meta_pass ms pd1) k = pd1 k)
         \<and> (snd (meta_pass ms pd1) k \<noteq> pd1 k \<longrightarrow> pd1 k = Some PNone \<or> pd1 k = Some (PStr []))"
proof -
  have "text_fields pd1"
    using assms(1) leadsD [OF text_static_fields text_fields_new, of pg url]
      leadsD [OF text_selenium_fields text_fields_new, of pg' url]
    by auto
  with assms(2) have shape: "pd1 k = Some PNone \<or> (\<exists>s. pd1 k = Some (PStr s))"
    by (auto simp: text_fields_def text_or_none_def split: option.splits pyval.splits)
  have keep: "snd (meta_pass ms pd1) k = pd1 k" if "pd1 k = Some (PStr s)" "s \<noteq> []" for s
    using meta_pass_keeps [of "PStr s" k pd1 ms] that assms(2) by simp
  from shape keep show ?thesis by (cases "pd1 k") auto
qed

theorem metadata_fills_only_empty_witness:
  "snd (meta_pass (meta_tags titled_with_meta)
          (snd (static_fields titled_with_meta (new_property_data ''L'')))) ''title''
     = Some (PStr ''Office'')"
proof -
  let ?pd1 = "snd (static_fields titled_with_meta (new_property_data ''L''))"
  have t: "?pd1 ''title'' = Some (PStr ''Office'')" by code_simp
  from metadata_fills_only_empty [of ?pd1 titled_with_meta "''L''" titled_with_meta "''title''"
      "meta_tags titled_with_meta"] t
  show ?thesis by simp
qed

subsection \<open>Totality and the keys of the result\<close>

lemma new_property_data_null:
  "k \<in> set property_keys - {''source'', ''url''} \<Longrightarrow> new_property_data url k = Some PNone"
  by (auto simp: property_keys_def new_property_data_def)

lemma static_fields_none: "no_elements pg \<Longrightarrow> static_fields pg pd = (None, pd)"
  by (simp add: no_elements_def static_fields_def on_text_def seq_def skip_def)

lemma selenium_fields_none: "no_elements pg \<Longrightarrow> selenium_fields pg pd = (None, pd)"
  by (simp add: no_elements_def selenium_fields_def on_text_def seq_def skip_def guarded_def)

lemma selenium_fields_completes: "fst (selenium_fields pg pd) = None"
  by (simp add: selenium_fields_def seq_def guarded_def)

text \<open>The record returned, by backend.\<close>

lemma scrape_property_static:
  assumes "\<not> use_selenium cfg"
  shows "fst (scrape_property cfg w url st) =
           Inr (case detail_static w (clock st) url of
                  None \<Rightarrow> new_property_data url
                | Some pg \<Rightarrow>
                    snd (seq (static_fields pg) (seq (meta_pass (meta_tags pg)) (id_step url))
                           (new_property_data url)))"
proof (cases "detail_static w (clock st) url")
  case None
  with assms show ?thesis by (simp add: scrape_property_def scrape_property_try_def)
next
  case (Some pg)
  obtain y pd2 where "seq (static_fields pg) (seq (meta_pass (meta_tags pg)) (id_step url))
                        (new_property_data url) = (y, pd2)"
    by (cases "seq (static_fields pg) (seq (meta_pass (meta_tags pg)) (id_step url))
                 (new_property_data url)")
  with assms Some show ?thesis
    by (cases y) (simp_all add: scrape_property_def scrape_property_try_def)
qed

lemma scrape_property_selenium:
  assumes "use_selenium cfg" and "init_driver w st = (r1, st1)"
  shows "fst (scrape_property cfg w url st) =
           Inr (case r1 of
                  Some e \<Rightarrow> new_property_data url
                | None \<Rightarrow>
                    (case detail_selenium w (clock st1) url of
                       None \<Rightarrow> new_property_data url
                     | Some pg \<Rightarrow>
                         (case page_source pg of
                            None \<Rightarrow> snd (selenium_fields pg (new_property_data url))
                          | Some ms \<Rightarrow>
                              snd (seq (meta_pass ms) (id_step url)
                                     (snd (selenium_fields pg (new_property_data url)))))))"
proof (cases r1)
  case (Some e)
  with assms show ?thesis by (simp add: scrape_property_def scrape_property_try_def)
next
  case None
  note r1 = this
  show ?thesis
  proof (cases "detail_selenium w (clock st1) url")
    case None
    with assms r1 show ?thesis by (simp add: scrape_property_def scrape_property_try_def)
  next
    case (Some pg)
    obtain pd1 where f: "selenium_fields pg (new_property_data url) = (None, pd1)"
      using selenium_fields_completes [of pg "new_property_data url"]
      by (cases "selenium_fields pg (new_property_data url)") simp
    show ?thesis
    proof (cases "page_source pg")
      case None
      with assms r1 Some f show ?thesis
        by (simp add: scrape_property_def scrape_property_try_def)
    next
      case (Some ms)
      obtain y pd2 where "seq (meta_pass ms) (id_step url) pd1 = (y, pd2)"
        by (cases "seq (meta_pass ms) (id_step url) pd1")
      with assms r1 \<open>detail_selenium w (clock st1) url = Some pg\<close> f Some show ?thesis
        by (cases y) (simp_all add: scrape_property_def scrape_property_try_def)
    qed
  qed
qed

lemma scrape_property_fetch_fails:
  assumes "fetch_fails cfg w url st" and "scrape_property cfg w url st = (Inr pd, st')"
  shows "pd = new_property_data url"
proof (cases "use_selenium cfg")
  case True
  obtain r1 st1 where i: "init_driver w st = (r1, st1)" by (cases "init_driver w st")
  from assms(1) True i have "r1 \<noteq> None \<or> detail_selenium w (clock st1) url = None"
    by (auto simp: fetch_fails_def split: option.splits)
  with scrape_property_selenium [OF True i, of url] assms(2) show ?thesis
    by (auto split: option.splits)
next
  case False
  with assms(1) have "detail_static w (clock st) url = None" by (simp add: fetch_fails_def)
  with scrape_property_static [OF False, of w url st] assms(2) show ?thesis by simp
qed

lemma tail_untouched:
  assumes "k \<noteq> ''title''" and "k \<noteq> ''description''" and "k \<noteq> ''property_id''"
  shows "snd (seq (meta_pass ms) (id_step url) pd) k = pd k"
proof -
  have "writes_only {''title'', ''description'', ''property_id''} (seq (meta_pass ms) (id_step url))"
    by (rule writes_only_seq)
       (rule writes_only_mono [OF writes_meta_pass], simp,
        rule writes_only_mono [OF writes_id_step], simp)
  then show ?thesis using assms by (simp add: writes_only_def)
qed

lemma scrape_property_fetch_bare:
  assumes "fetch_bare cfg w url st" and "scrape_property cfg w url st = (Inr pd, st')"
    and "k \<noteq> ''title''" and "k \<noteq> ''description''" and "k \<noteq> ''property_id''"
  shows "pd k = new_property_data url k"
proof (cases "use_selenium cfg")
  case True
  obtain r1 st1 where i: "init_driver w st = (r1, st1)" by (cases "init_driver w st")
  from assms(1) True i obtain pg where pg: "r1 = None" "detail_selenium w (clock st1) url = Some pg"
      "no_elements pg"
    by (auto simp: fetch_bare_def split: option.splits)
  from pg(3) have f: "snd (selenium_fields pg (new_property_data url)) = new_property_data url"
    by (simp add: selenium_fields_none)
  from scrape_property_selenium [OF True i, of url] assms(2) pg f
  have "pd = new_property_data url
        \<or> (\<exists>ms. pd = snd (seq (meta_pass ms) (id_step url) (new_property_data url)))"
    by (cases "page_source pg") auto
  with tail_untouched [OF assms(3-5)] show ?thesis by auto
next
  case False
  with assms(1) obtain pg where pg: "detail_static w (clock st) url = Some pg" "no_elements pg"
    by (auto simp: fetch_bare_def split: option.splits)
  from pg(2) have "seq (static_fields pg) (seq (meta_pass (meta_tags pg)) (id_step url))
                     (new_property_data url)
                   = seq (meta_pass (meta_tags pg)) (id_step url) (new_property_data url)"
    by (simp add: seq_def [of "static_fields pg"] static_fields_none)
  with scrape_property_static [OF False, of w url st] assms(2) pg(1)
  have "pd = snd (seq (meta_pass (meta_tags pg)) (id_step url) (new_property_data url))"
    by simp
  with tail_untouched [OF assms(3-5)] show ?thesis by simp
qed

text \<open>A page on which no element is found and that has no meta tag, at a URL that
  names a listing: the record has 15 keys and its \<^verbatim>\<open>property_id\<close> is not null.\<close>

theorem bare_page_has_id:
  "card (dom (projr (fst (scrape_property static_config (static_world bare_listing)
                             ''https://www.loopnet.com/property/123'' new_scraper)))) = 15
   \<and> projr (fst (scrape_property static_config (static_world bare_listing)
                    ''https://www.loopnet.com/property/123'' new_scraper)) ''property_id''
       = Some (PStr ''123'')"
proof -
  let ?r = "scrape_property static_config (static_world bare_listing)
              ''https://www.loopnet.com/property/123'' new_scraper"
  have r: "\<not> isl (fst ?r)" by code_simp
  then have eq: "?r = (Inr (projr (fst ?r)), snd ?r)" by (simp add: prod_eq_iff)
  have "card (dom (projr (fst ?r))) = card (set property_keys)"
    by (simp add: scrape_property_has_keys [OF eq])
  also have "\<dots> = 15"
    using property_keys_count by (simp add: distinct_card)
  finally have c: "card (dom (projr (fst ?r))) = 15" .
  have "projr (fst ?r) ''property_id'' = Some (PStr ''123'')" by code_simp
  with c show ?thesis by simp
qed

text \<open>C10, amended: for every input URL \<^verbatim>\<open>scrape_property\<close> returns, without raising, a
  mapping with exactly the 15 keys of the schema, \<^verbatim>\<open>source\<close> being \<^verbatim>\<open>"LoopNet"\<close> and \<^verbatim>\<open>url\<close>
  the input URL. When the fetch fails (the session cannot be initialized or the page cannot
  be loaded) all 13 other fields are null. When the page is loaded and no element is found
  on it, all other fields are null except possibly \<^verbatim>\<open>title\<close> and \<^verbatim>\<open>description\<close> (filled from
  the meta tags) and \<^verbatim>\<open>property_id\<close> (derived from the URL).\<close>

theorem scrape_property_total:
  "\<exists>pd st'. scrape_property cfg w url st = (Inr pd, st')
     \<and> dom pd = set property_keys \<and> length property_keys = 15 \<and> distinct property_keys
     \<and> pd ''source'' = Some (PStr ''LoopNet'') \<and> pd ''url'' = Some (PStr url)
     \<and> (fetch_fails cfg w url st
          \<longrightarrow> (\<forall>k \<in> set property_keys - {''source'', ''url''}. pd k = Some PNone))
     \<and> (fetch_bare cfg w url st
          \<longrightarrow> (\<forall>k \<in> set property_keys
                       - {''source'', ''url'', ''title'', ''description'', ''property_id''}.
                  pd k = Some PNone))"
proof -
  obtain pd st' where run: "scrape_property cfg w url st = (Inr pd, st')"
    using scrape_property_returns by blast
  have keys: "dom pd = set property_keys" using run by (rule scrape_property_has_keys)
  have "pd ''source'' = new_property_data url ''source''"
    by (rule scrape_property_untouched [OF run]) (simp_all add: element_keys_def)
  then have source: "pd ''source'' = Some (PStr ''LoopNet'')"
    by (simp add: new_property_data_def)
  have "pd ''url'' = new_property_data url ''url''"
    by (rule scrape_property_untouched [OF run]) (simp_all add: element_keys_def)
  then have url: "pd ''url'' = Some (PStr url)"
    by (simp add: new_property_data_def)
  have fails: "\<forall>k \<in> set property_keys - {''source'', ''url''}. pd k = Some PNone"
    if "fetch_fails cfg w url st"
    using scrape_property_fetch_fails [OF that run] new_property_data_null by blast
  have bare: "\<forall>k \<in> set property_keys
                    - {''source'', ''url'', ''title'', ''description'', ''property_id''}.
                pd k = Some PNone"
    if "fetch_bare cfg w url st"
  proof
    fix k assume k: "k \<in> set property_keys
                        - {''source'', ''url'', ''title'', ''description'', ''property_id''}"
    then have "pd k = new_property_data url k"
      using scrape_property_fetch_bare [OF that run, of k] by blast
    with k show "pd k = Some PNone" using new_property_data_null [of k url] by auto
  qed
  from run keys source url fails bare property_keys_count show ?thesis by blast
qed

theorem scrape_property_total_witness:
  "fetch_fails static_config empty_world ''L'' new_scraper
   \<and> \<not> isl (fst (scrape_property static_config empty_world ''L'' new_scraper))
   \<and> projr (fst (scrape_property static_config empty_world ''L'' new_scraper)) ''url''
       = Some (PStr ''L'')
   \<and> projr (fst (scrape_property static_config empty_world ''L'' new_scraper)) ''title''
       = Some PNone"
proof -
  have f: "fetch_fails static_config empty_world ''L'' new_scraper"
    by (simp add: fetch_fails_def static_config_def empty_world_def)
  have k: "''title'' \<in> set property_keys - {''source'', ''url''}"
    by (simp add: property_keys_def)
  from scrape_property_total [of static_config empty_world "''L''" new_scraper] f k
  show ?thesis by auto
qed

end
